theory Spec2Isabelle
  imports Main
begin

section \<open>Strings\<close>

text \<open>
  A Python \<open>str\<close> is modelled as a HOL \<open>string\<close>: a list of characters, each a code
  point below 256. The backslash cannot be written inside a HOL string literal, so it has
  a name.
\<close>

abbreviation bs :: char where
  "bs \<equiv> CHR 0x5C"

text \<open>\<open>sep.join(parts)\<close>\<close>

fun join :: "string \<Rightarrow> string list \<Rightarrow> string" where
  "join sep [] = []"
| "join sep [x] = x"
| "join sep (x # y # ys) = x @ sep @ join sep (y # ys)"

text \<open>
  The whitespace of \<open>str.strip()\<close> and of the regular expression class \<open>\s\<close> on a
  \<open>str\<close> pattern is the same set, the characters for which \<open>str.isspace\<close> holds.
  Below 256 these are the code points 9 to 13, 28 to 32, 133 and 160.
\<close>

definition is_space :: "char \<Rightarrow> bool" where
  "is_space c = ((of_char c :: nat) \<in> {9, 10, 11, 12, 13, 28, 29, 30, 31, 32, 133, 160})"

text \<open>\<open>text.strip()\<close>\<close>

definition py_strip :: "string \<Rightarrow> string" where
  "py_strip s = rev (dropWhile is_space (rev (dropWhile is_space s)))"

text \<open>
  \<open>re.sub(r"\s+", " ", text)\<close>: scanning from the left, every maximal run of whitespace
  is replaced by one space.
\<close>

function re_sub_ws :: "string \<Rightarrow> string" where
  "re_sub_ws [] = []"
| "re_sub_ws (c # cs) =
     (if is_space c then CHR '' '' # re_sub_ws (dropWhile is_space cs) else c # re_sub_ws cs)"
  by pat_completeness auto
termination
  by (relation "measure length") (auto simp: length_dropWhile_le less_Suc_eq_le)

definition normalize_whitespace :: "string \<Rightarrow> string" where
  "normalize_whitespace text = (let collapsed = re_sub_ws text in py_strip collapsed)"

text \<open>
  \<open>s.lower()\<close>. Below 256 the characters with a different lower case are A to Z and the
  code points 192 to 222 without 215; each moves up by 32.
\<close>

definition lower_char :: "char \<Rightarrow> char" where
  "lower_char c =
     (let n = (of_char c :: nat)
      in if (65 \<le> n \<and> n \<le> 90) \<or> (192 \<le> n \<and> n \<le> 222 \<and> n \<noteq> 215) then char_of (n + 32) else c)"

definition py_lower :: "string \<Rightarrow> string" where
  "py_lower s = map lower_char s"

text \<open>\<open>s.endswith(suffix)\<close>\<close>

definition endswith :: "string \<Rightarrow> string \<Rightarrow> bool" where
  "endswith s suffix = (length suffix \<le> length s \<and> drop (length s - length suffix) s = suffix)"

subsection \<open>Integers and their text\<close>

definition is_digit :: "char \<Rightarrow> bool" where
  "is_digit c = (48 \<le> (of_char c :: nat) \<and> (of_char c :: nat) \<le> 57)"

definition digit_val :: "char \<Rightarrow> nat" where
  "digit_val c = of_char c - 48"

text \<open>
  The digits of \<open>int(s)\<close> after the first one: decimal digits, where a single underscore
  may stand between two digits. The accumulator is the value read so far.
\<close>

fun parse_digits :: "nat \<Rightarrow> string \<Rightarrow> nat option" where
  "parse_digits acc [] = Some acc"
| "parse_digits acc [c] = (if is_digit c then Some (10 * acc + digit_val c) else None)"
| "parse_digits acc (c # d # ds) =
     (if is_digit c then parse_digits (10 * acc + digit_val c) (d # ds)
      else if c = CHR ''_'' \<and> is_digit d then parse_digits (10 * acc + digit_val d) ds
      else None)"

text \<open>
  The whitespace that \<open>int(s)\<close> drops at both ends of a string is smaller than that of
  \<open>strip\<close>: the code points 9 to 13 and 32, and of the others 133 and 160; the code
  points 28 to 31 are not dropped.
\<close>

definition is_int_space :: "char \<Rightarrow> bool" where
  "is_int_space c = ((of_char c :: nat) \<in> {9, 10, 11, 12, 13, 32, 133, 160})"

definition int_strip :: "string \<Rightarrow> string" where
  "int_strip s = rev (dropWhile is_int_space (rev (dropWhile is_int_space s)))"

text \<open>
  The converter leaves the interpreter's limit on the digits of a string at its default.
\<close>

definition int_max_str_digits :: nat where
  "int_max_str_digits = 4300"

text \<open>
  \<open>int(s)\<close> on a string: surrounding whitespace is dropped, one sign may lead, and at
  least one digit follows. \<open>None\<close> is the \<open>ValueError\<close>, which is also raised when the
  string has more digits than the limit; leading zeros count as digits, underscores, the
  sign and the whitespace do not.
\<close>

definition py_int :: "string \<Rightarrow> int option" where
  "py_int s =
     (if int_max_str_digits < length (filter is_digit s) then None
      else
        case int_strip s of
          [] \<Rightarrow> None
        | c # cs \<Rightarrow>
            (let negative = (c = CHR ''-'');
                 ds = (if c = CHR ''-'' \<or> c = CHR ''+'' then cs else c # cs)
             in case ds of
                  [] \<Rightarrow> None
                | d # r \<Rightarrow>
                    if is_digit d
                    then (case parse_digits (digit_val d) r of
                            None \<Rightarrow> None
                          | Some n \<Rightarrow> Some (if negative then - int n else int n))
                    else None))"

text \<open>\<open>str(n)\<close> of an integer, as an f-string prints it.\<close>

definition digit_char :: "nat \<Rightarrow> char" where
  "digit_char n = ''0123456789'' ! n"

function digits_of :: "nat \<Rightarrow> string" where
  "digits_of n = (if n < 10 then [digit_char n] else digits_of (n div 10) @ [digit_char (n mod 10)])"
  by pat_completeness auto
termination
  by (relation "measure id") auto

declare digits_of.simps [simp del]

definition py_str_int :: "int \<Rightarrow> string" where
  "py_str_int i = (if i < 0 then CHR ''-'' # digits_of (nat (- i)) else digits_of (nat i))"

subsection \<open>Floating point: true division and the format \<open>.2f\<close>\<close>

text \<open>
  A finite Python float is a binary fraction; the pair \<open>(m, e)\<close> stands for the float
  \<open>m * 2 ^ e\<close>, where \<open>e\<close> may be negative. \<open>int / int\<close> gives the float nearest to the
  quotient, ties to the even mantissa of 53 bits, and raises \<open>OverflowError\<close> when that is
  \<open>2 ^ 1024\<close> or more. Quotients below the normal range do not occur for the divisor used
  here and are not modelled.
\<close>

datatype error = OverflowError

function bit_length :: "nat \<Rightarrow> nat" where
  "bit_length n = (if n = 0 then 0 else Suc (bit_length (n div 2)))"
  by pat_completeness auto
termination
  by (relation "measure id") auto

declare bit_length.simps [simp del]

text \<open>The nearest integer to \<open>a / b\<close> for \<open>b > 0\<close>, ties to even.\<close>

definition round_half_even :: "int \<Rightarrow> int \<Rightarrow> int" where
  "round_half_even a b =
     (let q = a div b; r = a mod b
      in if 2 * r < b then q else if b < 2 * r then q + 1 else if even q then q else q + 1)"

text \<open>\<open>a / (d * 2 ^ e)\<close> as a fraction of integers.\<close>

definition scaled :: "int \<Rightarrow> int \<Rightarrow> int \<Rightarrow> int \<times> int" where
  "scaled a d e = (if 0 \<le> e then (a, d * 2 ^ nat e) else (a * 2 ^ nat (- e), d))"

text \<open>
  The exponent \<open>e\<close> with \<open>2 ^ 52 \<le> a / (d * 2 ^ e) < 2 ^ 53\<close>, for positive \<open>a\<close> and \<open>d\<close>.
\<close>

definition quotient_exponent :: "int \<Rightarrow> int \<Rightarrow> int" where
  "quotient_exponent a d =
     (let e0 = int (bit_length (nat a)) - int (bit_length (nat d))
      in (if snd (scaled a d e0) \<le> fst (scaled a d e0) then e0 else e0 - 1) - 52)"

definition quotient_mantissa :: "int \<Rightarrow> int \<Rightarrow> int \<Rightarrow> int" where
  "quotient_mantissa a d e = round_half_even (fst (scaled a d e)) (snd (scaled a d e))"

text \<open>
  A mantissa \<open>m\<close> between \<open>2 ^ 52\<close> and \<open>2 ^ 53\<close> with exponent \<open>e\<close> reaches
  \<open>2 ^ 1024\<close> exactly when \<open>e > 971\<close>, or \<open>e = 971\<close> and \<open>m = 2 ^ 53\<close>.
\<close>

definition float_overflow :: "int \<Rightarrow> int \<Rightarrow> bool" where
  "float_overflow m e = (971 < e \<or> (e = 971 \<and> m = 2 ^ 53))"

definition float_result :: "bool \<Rightarrow> int \<Rightarrow> int \<Rightarrow> error + (int \<times> int)" where
  "float_result negative m e =
     (if float_overflow m e then Inl OverflowError else Inr (if negative then - m else m, e))"

definition true_div :: "int \<Rightarrow> int \<Rightarrow> error + (int \<times> int)" where
  "true_div n d =
     (if n = 0 then Inr (0, 0)
      else float_result (n < 0) (quotient_mantissa \<bar>n\<bar> d (quotient_exponent \<bar>n\<bar> d))
             (quotient_exponent \<bar>n\<bar> d))"

text \<open>
  \<open>f"{x:.2f}"\<close>: the float is rounded to hundredths, ties of the exact binary value to
  even, and printed with its sign, its integer part and two decimals.
\<close>

definition two_digits :: "nat \<Rightarrow> string" where
  "two_digits n = [digit_char (n div 10), digit_char (n mod 10)]"

definition hundredths :: "int \<times> int \<Rightarrow> nat" where
  "hundredths x =
     nat (round_half_even (fst (scaled (\<bar>fst x\<bar> * 100) 1 (- snd x)))
            (snd (scaled (\<bar>fst x\<bar> * 100) 1 (- snd x))))"

definition print_hundredths :: "bool \<Rightarrow> nat \<Rightarrow> string" where
  "print_hundredths negative h =
     (if negative then ''-'' else '''') @ digits_of (h div 100) @ ''.'' @ two_digits (h mod 100)"

definition format_2f :: "int \<times> int \<Rightarrow> string" where
  "format_2f x = print_hundredths (fst x < 0) (hundredths x)"

definition EMU_PER_INCH :: int where
  "EMU_PER_INCH = 914400"

section \<open>\<open>escape_latex\<close>\<close>

text \<open>The dictionary \<open>replacements\<close> of \<open>escape_latex\<close>, in the order of the source.\<close>

definition replacements :: "(char \<times> string) list" where
  "replacements =
    [(bs, bs # ''textbackslash{}''),
     (CHR ''&'', [bs, CHR ''&'']),
     (CHR ''%'', [bs, CHR ''%'']),
     (CHR ''$'', [bs, CHR ''$'']),
     (CHR ''#'', [bs, CHR ''#'']),
     (CHR ''_'', [bs, CHR ''_'']),
     (CHR ''{'', [bs, CHR ''{'']),
     (CHR ''}'', [bs, CHR ''}'']),
     (CHR ''~'', bs # ''textasciitilde{}''),
     (CHR ''^'', bs # ''textasciicircum{}'')]"

text \<open>\<open>replacements.get(ch, ch)\<close>\<close>

definition replacement :: "char \<Rightarrow> string" where
  "replacement ch = (case map_of replacements ch of Some r \<Rightarrow> r | None \<Rightarrow> [ch])"

definition escape_latex :: "string \<Rightarrow> string" where
  "escape_latex text = concat (map replacement text)"

text \<open>The ten characters that \<open>replacements\<close> has as keys.\<close>

definition metachars :: "char set" where
  "metachars = {bs, CHR ''&'', CHR ''%'', CHR ''$'', CHR ''#'', CHR ''_'', CHR ''{'', CHR ''}'',
                CHR ''~'', CHR ''^''}"

section \<open>The element tree\<close>

text \<open>
  An \<open>xml.etree.ElementTree.Element\<close>: a qualified tag, the attribute dictionary, the text
  before the first child (\<open>None\<close> when there is none) and the children in document order.
  ElementTree writes a qualified name as the namespace in braces before the local name;
  here it is the pair of the namespace and the local name, and the seven namespaces of the
  table \<open>NS\<close> have names. An unqualified name has the namespace \<open>No_NS\<close>.
\<close>

datatype ns = W_NS | M_NS | R_NS | A_NS | WP_NS | PIC_NS | REL_NS | No_NS | Other_NS string

type_synonym qname = "ns \<times> string"

datatype element =
  Element (tag: qname) (attrib: "(qname \<times> string) list") (text_of: "string option")
    (children: "element list")

text \<open>\<open>element.attrib.get(name)\<close> and \<open>element.attrib.get(name, default)\<close>\<close>

definition attrib_get :: "element \<Rightarrow> qname \<Rightarrow> string option" where
  "attrib_get e name = map_of (attrib e) name"

definition attrib_get_default :: "element \<Rightarrow> qname \<Rightarrow> string \<Rightarrow> string" where
  "attrib_get_default e name d = (case attrib_get e name of None \<Rightarrow> d | Some v \<Rightarrow> v)"

text \<open>
  \<open>element.find("p:name", NS)\<close> is the first child with that tag and
  \<open>element.findall("p:name", NS)\<close> are all children with it, in order.
\<close>

definition find_child :: "qname \<Rightarrow> element \<Rightarrow> element option" where
  "find_child name e = List.find (\<lambda>c. tag c = name) (children e)"

definition findall :: "qname \<Rightarrow> element \<Rightarrow> element list" where
  "findall name e = filter (\<lambda>c. tag c = name) (children e)"

text \<open>
  The path \<open>.//p:name\<close> ranges over the descendants of the element, the element itself
  excluded, in document order.
\<close>

fun descendants :: "element \<Rightarrow> element list" where
  "descendants (Element t a x cs) = concat (map (\<lambda>c. c # descendants c) cs)"

definition find_desc :: "qname \<Rightarrow> element \<Rightarrow> element option" where
  "find_desc name e = List.find (\<lambda>c. tag c = name) (descendants e)"

definition findall_desc :: "qname \<Rightarrow> element \<Rightarrow> element list" where
  "findall_desc name e = filter (\<lambda>c. tag c = name) (descendants e)"

section \<open>The list stack\<close>

record ListState =
  level :: int
  env :: string
  num_id :: string

text \<open>The lines that close and open an environment.\<close>

definition end_line :: "string \<Rightarrow> string" where
  "end_line e = bs # ''end{'' @ e @ ''}''"

definition begin_line :: "string \<Rightarrow> string" where
  "begin_line e = bs # ''begin{'' @ e @ ''}''"

text \<open>
  The converter's \<open>list_stack\<close> is a Python list whose last element is the top. The
  methods that change it take the stack and return the lines they emit with the new stack.

  \<open>_close_all_lists\<close>: pop and close until the stack is empty.
\<close>

function close_all_lists :: "ListState list \<Rightarrow> string list \<times> ListState list" where
  "close_all_lists stack =
     (if stack \<noteq> []
      then (let state = last stack;
                r = close_all_lists (butlast stack)
            in (end_line (env state) # fst r, snd r))
      else ([], stack))"
  by pat_completeness auto
termination
  by (relation "measure length") auto

declare close_all_lists.simps [simp del]

text \<open>
  The first loop of \<open>_sync_list_stack\<close>: close the lists deeper than the target level.
\<close>

function close_deeper :: "ListState \<Rightarrow> ListState list \<Rightarrow> string list \<times> ListState list" where
  "close_deeper target stack =
     (if stack \<noteq> [] \<and> level (last stack) > level target
      then (let state = last stack;
                r = close_deeper target (butlast stack)
            in (end_line (env state) # fst r, snd r))
      else ([], stack))"
  by pat_completeness auto
termination
  by (relation "measure (\<lambda>(target, stack). length stack)") auto

declare close_deeper.simps [simp del]

text \<open>
  The second loop of \<open>_sync_list_stack\<close>: while the stack is empty or its top is
  shallower than the target, push a state whose level is the length of the stack. The
  level pushed grows by one with every turn, so the loop ends.
\<close>

function open_levels :: "ListState \<Rightarrow> ListState list \<Rightarrow> string list \<times> ListState list" where
  "open_levels target stack =
     (if stack = [] \<or> level (last stack) < level target
      then (let new_state = \<lparr>level = int (length stack), env = env target, num_id = num_id target\<rparr>;
                r = open_levels target (stack @ [new_state])
            in (begin_line (env target) # fst r, snd r))
      else ([], stack))"
  by pat_completeness auto
termination
  by (relation "measure (\<lambda>(target, stack).
        if stack = [] \<or> level (last stack) < level target
        then 2 + nat (level target - int (length stack)) else 0)") auto

declare open_levels.simps [simp del]

text \<open>The step between the two loops: same level, other environment or numbering.\<close>

definition close_same_level :: "ListState \<Rightarrow> ListState list \<Rightarrow> string list \<times> ListState list" where
  "close_same_level target stack =
     (if stack \<noteq> [] \<and> level (last stack) = level target
      then (let current = last stack
            in if env current \<noteq> env target \<or> num_id current \<noteq> num_id target
               then ([end_line (env current)], butlast stack)
               else ([], stack))
      else ([], stack))"

text \<open>The \<open>if\<close>, \<open>elif\<close>, \<open>elif\<close> after the second loop.\<close>

definition open_target :: "ListState \<Rightarrow> ListState list \<Rightarrow> string list \<times> ListState list" where
  "open_target target stack =
     (if stack = [] \<or> level (last stack) < level target
      then ([begin_line (env target)],
            stack @ [\<lparr>level = level target, env = env target, num_id = num_id target\<rparr>])
      else if level (last stack) = level target
              \<and> (env (last stack) \<noteq> env target \<or> num_id (last stack) \<noteq> num_id target)
      then ([end_line (env (last stack)), begin_line (env target)], butlast stack @ [target])
      else if stack = []
      then ([begin_line (env target)], stack @ [target])
      else ([], stack))"

definition sync_list_stack :: "ListState option \<Rightarrow> ListState list \<Rightarrow> string list \<times> ListState list" where
  "sync_list_stack target stack =
     (case target of
        None \<Rightarrow> close_all_lists stack
      | Some t \<Rightarrow>
          (let r1 = close_deeper t stack;
               r2 = close_same_level t (snd r1);
               r3 = open_levels t (snd r2);
               r4 = open_target t (snd r3)
           in (fst r1 @ fst r2 @ fst r3 @ fst r4, snd r4)))"

text \<open>
  The machine driven by a sequence of paragraph targets, one call of
  \<open>_sync_list_stack\<close> for each, the lines collected in order.
\<close>

fun drive :: "ListState option list \<Rightarrow> ListState list \<Rightarrow> string list \<times> ListState list" where
  "drive [] stack = ([], stack)"
| "drive (t # ts) stack =
     (let r = sync_list_stack t stack; rs = drive ts (snd r) in (fst r @ fst rs, snd rs))"

text \<open>An open directive and a close directive, recognised by how the line starts.\<close>

definition is_open :: "string \<Rightarrow> bool" where
  "is_open line = (take 7 line = bs # ''begin{'')"

definition is_close :: "string \<Rightarrow> bool" where
  "is_close line = (take 5 line = bs # ''end{'')"

definition opens :: "string list \<Rightarrow> nat" where
  "opens lines = length (filter is_open lines)"

definition closes :: "string list \<Rightarrow> nat" where
  "closes lines = length (filter is_close lines)"

text \<open>
  The levels of the stack count up from 0 without a gap, bottom to top.
\<close>

definition levels_ok :: "ListState list \<Rightarrow> bool" where
  "levels_ok stack = (map level stack = map int [0 ..< length stack])"

section \<open>The converter\<close>

text \<open>
  What the methods read from the \<open>DocxToLatexConverter\<close> object:
  \<^item> \<open>relationships\<close>, the dictionary from a relationship id to its type and target;
  \<^item> \<open>num_formats\<close>, the dictionary from a numbering id to the format of each level;
  \<^item> \<open>zip_has member\<close>, whether \<open>self.zip.read(member)\<close> finds the member (it raises
    \<open>KeyError\<close> otherwise);
  \<^item> \<open>media_tex_path target\<close>, the path \<open>tex_path(self.media_dir / Path(target).name,
    self.output_dir)\<close> that \<open>pathlib\<close> computes for the copy of an image.

  The copy of the image into the media directory is an effect on the file system with no
  value; it is left out. The list stack is passed on its own.
\<close>

record converter =
  relationships :: "string \<rightharpoonup> string \<times> string"
  num_formats :: "string \<rightharpoonup> (int \<rightharpoonup> string)"
  zip_has :: "string \<Rightarrow> bool"
  media_tex_path :: "string \<Rightarrow> string"

subsection \<open>\<open>_format_run_text\<close>\<close>

text \<open>The f-string that puts a command around a text.\<close>

definition wrap :: "string \<Rightarrow> string \<Rightarrow> string" where
  "wrap wrapper escaped = bs # wrapper @ ''{'' @ escaped @ ''}''"

text \<open>The list \<open>wrappers\<close> that \<open>_format_run_text\<close> builds from the run properties.\<close>

definition wrappers :: "element \<Rightarrow> string list" where
  "wrappers rpr =
     (if find_child (W_NS, ''b'') rpr \<noteq> None then [''textbf''] else [])
     @ (if find_child (W_NS, ''i'') rpr \<noteq> None then [''emph''] else [])
     @ (case find_child (W_NS, ''u'') rpr of
          None \<Rightarrow> []
        | Some underline \<Rightarrow>
            if py_lower (attrib_get_default underline (W_NS, ''val'') '''') \<noteq> ''none''
            then [''underline''] else [])"

text \<open>The branch on \<open>w:vertAlign\<close>, which rewrites \<open>escaped\<close> before the loop.\<close>

definition vert_align :: "element \<Rightarrow> string \<Rightarrow> string" where
  "vert_align rpr escaped =
     (case find_child (W_NS, ''vertAlign'') rpr of
        None \<Rightarrow> escaped
      | Some va \<Rightarrow>
          (let align = attrib_get va (W_NS, ''val'')
           in if align = Some ''superscript'' then wrap ''textsuperscript'' escaped
              else if align = Some ''subscript'' then wrap ''textsubscript'' escaped
              else escaped))"

definition format_run_text :: "element \<Rightarrow> element \<Rightarrow> string" where
  "format_run_text text_node run =
     (let raw_text = (case text_of text_node of None \<Rightarrow> '''' | Some s \<Rightarrow> s);
          escaped = escape_latex raw_text
      in case find_child (W_NS, ''rPr'') run of
           None \<Rightarrow> escaped
         | Some rpr \<Rightarrow> fold wrap (wrappers rpr) (vert_align rpr escaped))"

subsection \<open>\<open>_convert_math\<close> and \<open>_convert_drawing\<close>\<close>

definition convert_math :: "element \<Rightarrow> string" where
  "convert_math e =
     (let parts = concat (map (\<lambda>node. case text_of node of
                                         None \<Rightarrow> []
                                       | Some s \<Rightarrow> if s \<noteq> [] then [s] else [])
                            (findall_desc (M_NS, ''t'') e))
      in if parts = [] then [] else ''$'' @ join '' '' parts @ ''$'')"

text \<open>
  The width option of a drawing (the lines from \<open>width_option = ...\<close> to the \<open>except\<close>).
  The \<open>ValueError\<close> of \<open>int\<close> is caught and keeps the default; the \<open>OverflowError\<close> of the
  division is not caught.
\<close>

definition default_width :: string where
  "default_width = ''width=0.7'' @ [bs] @ ''linewidth''"

definition width_option :: "element \<Rightarrow> error + string" where
  "width_option container =
     (case find_child (WP_NS, ''extent'') container of
        None \<Rightarrow> Inr default_width
      | Some extent \<Rightarrow>
          (case attrib_get extent (No_NS, ''cx'') of
             None \<Rightarrow> Inr default_width
           | Some cx \<Rightarrow>
               if cx = [] then Inr default_width
               else (case py_int cx of
                       None \<Rightarrow> Inr default_width
                     | Some n \<Rightarrow>
                         (case true_div n EMU_PER_INCH of
                            Inl err \<Rightarrow> Inl err
                          | Inr width_in \<Rightarrow> Inr (''width='' @ format_2f width_in @ ''in'')))))"

text \<open>\<open>doc_pr.attrib.get("descr") or doc_pr.attrib.get("title")\<close>, when \<open>wp:docPr\<close> is there.\<close>

definition caption_of :: "element \<Rightarrow> string option" where
  "caption_of container =
     (case find_child (WP_NS, ''docPr'') container of
        None \<Rightarrow> None
      | Some doc_pr \<Rightarrow>
          (case attrib_get doc_pr (No_NS, ''descr'') of
             None \<Rightarrow> attrib_get doc_pr (No_NS, ''title'')
           | Some d \<Rightarrow> if d \<noteq> [] then Some d else attrib_get doc_pr (No_NS, ''title'')))"

definition figure_lines :: "string \<Rightarrow> string \<Rightarrow> string option \<Rightarrow> string list" where
  "figure_lines width path caption =
     [bs # ''begin{figure}[h]'',
      bs # ''centering'',
      bs # ''includegraphics['' @ width @ '']{'' @ escape_latex path @ ''}'']
     @ (case caption of
          None \<Rightarrow> []
        | Some c \<Rightarrow> if c \<noteq> [] then [bs # ''caption{'' @ escape_latex (normalize_whitespace c) @ ''}'']
                    else [])
     @ [bs # ''end{figure}'']"

text \<open>The container of a drawing: the inline one, or else the anchored one.\<close>

definition drawing_container :: "element \<Rightarrow> element option" where
  "drawing_container drawing =
     (let inline = find_desc (WP_NS, ''inline'') drawing;
          anchor = (if inline = None then find_desc (WP_NS, ''anchor'') drawing else None)
      in if inline \<noteq> None then inline else anchor)"

definition convert_drawing :: "converter \<Rightarrow> element \<Rightarrow> error + string list option" where
  "convert_drawing cv drawing =
     (case drawing_container drawing of
        None \<Rightarrow> Inr None
      | Some container \<Rightarrow>
          (case find_desc (A_NS, ''blip'') container of
             None \<Rightarrow> Inr None
           | Some blip \<Rightarrow>
               (case attrib_get blip (R_NS, ''embed'') of
                  None \<Rightarrow> Inr None
                | Some embed_id \<Rightarrow>
                    if embed_id = [] then Inr None
                    else (case relationships cv embed_id of
                            None \<Rightarrow> Inr None
                          | Some (rel_type, target) \<Rightarrow>
                              if \<not> endswith rel_type ''/image'' then Inr None
                              else if \<not> zip_has cv (''word/'' @ map (\<lambda>c. if c = bs then CHR ''/'' else c) target)
                              then Inr None
                              else (case width_option container of
                                      Inl err \<Rightarrow> Inl err
                                    | Inr width \<Rightarrow>
                                        Inr (Some (figure_lines width (media_tex_path cv target)
                                                     (caption_of container))))))))"

subsection \<open>Runs and inline content\<close>

text \<open>
  A loop that appends to a list of texts and to a list of blocks: the contributions of the
  items, in order, up to the first exception.
\<close>

fun gather :: "('a \<Rightarrow> error + (string list \<times> string list)) \<Rightarrow> 'a list
    \<Rightarrow> error + (string list \<times> string list)" where
  "gather f [] = Inr ([], [])"
| "gather f (x # xs) =
     (case f x of
        Inl err \<Rightarrow> Inl err
      | Inr r \<Rightarrow>
          (case gather f xs of
             Inl err \<Rightarrow> Inl err
           | Inr rs \<Rightarrow> Inr (fst r @ fst rs, snd r @ snd rs)))"

text \<open>One turn of the loop of \<open>_convert_run\<close>: the texts and the blocks a child adds.\<close>

definition convert_run_child :: "converter \<Rightarrow> element \<Rightarrow> element
    \<Rightarrow> error + (string list \<times> string list)" where
  "convert_run_child cv run child =
     (if tag child = (W_NS, ''t'') then Inr ([format_run_text child run], [])
      else if tag child = (W_NS, ''tab'') then Inr ([bs # ''hspace*{1em}''], [])
      else if tag child = (W_NS, ''br'') then Inr ([[bs, bs]], [])
      else if tag child = (W_NS, ''drawing'') then
        (case convert_drawing cv child of
           Inl err \<Rightarrow> Inl err
         | Inr None \<Rightarrow> Inr ([], [])
         | Inr (Some figure_block) \<Rightarrow> Inr ([], figure_block))
      else if tag child = (W_NS, ''pict'') then Inr ([], [''% Picture element omitted (unsupported)''])
      else if tag child = (M_NS, ''oMath'') \<or> tag child = (M_NS, ''oMathPara'') then
        (let math_text = convert_math child
         in Inr (if math_text \<noteq> [] then [math_text] else [], []))
      else Inr ([], []))"

definition convert_run :: "converter \<Rightarrow> element \<Rightarrow> error + (string \<times> string list)" where
  "convert_run cv run =
     (case gather (convert_run_child cv run) (children run) of
        Inl err \<Rightarrow> Inl err
      | Inr r \<Rightarrow> Inr (concat (fst r), snd r))"

text \<open>A run as an item of an enclosing loop: its text is one part.\<close>

definition run_part :: "converter \<Rightarrow> element \<Rightarrow> error + (string list \<times> string list)" where
  "run_part cv run =
     (case convert_run cv run of Inl err \<Rightarrow> Inl err | Inr r \<Rightarrow> Inr ([fst r], snd r))"

definition convert_hyperlink :: "converter \<Rightarrow> element \<Rightarrow> error + (string \<times> string list)" where
  "convert_hyperlink cv hyperlink =
     (let rel_id = attrib_get hyperlink (R_NS, ''id'')
      in case gather (run_part cv) (findall (W_NS, ''r'') hyperlink) of
           Inl err \<Rightarrow> Inl err
         | Inr r \<Rightarrow>
             (let text_value = concat (fst r); blocks = snd r
              in case rel_id of
                   None \<Rightarrow> Inr (text_value, blocks)
                 | Some rid \<Rightarrow>
                     if rid = [] then Inr (text_value, blocks)
                     else (case relationships cv rid of
                             None \<Rightarrow> Inr (text_value, blocks)
                           | Some (rel_type, target) \<Rightarrow>
                               (let href = escape_latex target
                                in if text_value \<noteq> []
                                   then Inr (bs # ''href{'' @ href @ ''}{'' @ text_value @ ''}'', blocks)
                                   else Inr (text_value, blocks)))))"

text \<open>One turn of the loop of \<open>_collect_runs\<close>: the fragments and blocks a child adds.\<close>

definition collect_runs_child :: "converter \<Rightarrow> element \<Rightarrow> error + (string list \<times> string list)" where
  "collect_runs_child cv child =
     (if tag child = (W_NS, ''r'') then run_part cv child
      else if tag child = (W_NS, ''hyperlink'') then
        (case convert_hyperlink cv child of Inl err \<Rightarrow> Inl err | Inr r \<Rightarrow> Inr ([fst r], snd r))
      else if tag child = (W_NS, ''fldSimple'') then
        (case gather (run_part cv) (findall (W_NS, ''r'') child) of
           Inl err \<Rightarrow> Inl err
         | Inr r \<Rightarrow> Inr ([concat (fst r)], snd r))
      else if tag child = (M_NS, ''oMath'') \<or> tag child = (M_NS, ''oMathPara'') then
        Inr ([convert_math child], [])
      else Inr ([], []))"

definition collect_runs :: "converter \<Rightarrow> element \<Rightarrow> error + (string \<times> string list)" where
  "collect_runs cv paragraph =
     (case gather (collect_runs_child cv) (children paragraph) of
        Inl err \<Rightarrow> Inl err
      | Inr r \<Rightarrow> Inr (concat (fst r), snd r))"

subsection \<open>Tables\<close>

definition convert_table_cell :: "converter \<Rightarrow> element \<Rightarrow> error + string" where
  "convert_table_cell cv cell =
     (case gather (\<lambda>paragraph.
                     case collect_runs cv paragraph of
                       Inl err \<Rightarrow> Inl err
                     | Inr r \<Rightarrow>
                         (let content = py_strip (fst r)
                          in Inr ((if content \<noteq> [] then [content] else []) @ snd r, [])))
             (findall (W_NS, ''p'') cell) of
        Inl err \<Rightarrow> Inl err
      | Inr parts \<Rightarrow> Inr (join ('' '' @ [bs, bs] @ '' '') (filter (\<lambda>part. part \<noteq> []) (fst parts))))"

text \<open>The span of a cell, as the inner loop of \<open>_convert_table\<close> reads it.\<close>

definition cell_span :: "element \<Rightarrow> int" where
  "cell_span tc =
     (case find_child (W_NS, ''tcPr'') tc of
        None \<Rightarrow> 1
      | Some cell_pr \<Rightarrow>
          (case find_child (W_NS, ''gridSpan'') cell_pr of
             None \<Rightarrow> 1
           | Some grid_span \<Rightarrow>
               (case py_int (attrib_get_default grid_span (W_NS, ''val'') ''1'') of
                  None \<Rightarrow> 1
                | Some n \<Rightarrow> n)))"

text \<open>The cells of a row and the rows of a table, with the first exception of a cell.\<close>

fun row_cells :: "converter \<Rightarrow> element list \<Rightarrow> error + (string \<times> int) list" where
  "row_cells cv [] = Inr []"
| "row_cells cv (tc # tcs) =
     (let span = cell_span tc
      in case convert_table_cell cv tc of
           Inl err \<Rightarrow> Inl err
         | Inr cell_text \<Rightarrow>
             (case row_cells cv tcs of
                Inl err \<Rightarrow> Inl err
              | Inr cells \<Rightarrow> Inr ((cell_text, span) # cells)))"

fun rows_data :: "converter \<Rightarrow> element list \<Rightarrow> error + (string \<times> int) list list" where
  "rows_data cv [] = Inr []"
| "rows_data cv (tr # trs) =
     (case row_cells cv (findall (W_NS, ''tc'') tr) of
        Inl err \<Rightarrow> Inl err
      | Inr row \<Rightarrow>
          (case rows_data cv trs of
             Inl err \<Rightarrow> Inl err
           | Inr rows \<Rightarrow> Inr (row # rows)))"

text \<open>\<open>sum(span for _, span in row_cells) or 1\<close>\<close>

definition span_total :: "(string \<times> int) list \<Rightarrow> int" where
  "span_total row = (let s = sum_list (map snd row) in if s = 0 then 1 else s)"

text \<open>
  \<open>max_cols\<close>: it starts at 0, every row raises it to its span total when that is larger,
  and a 0 left at the end becomes 1.
\<close>

definition max_cols_of :: "(string \<times> int) list list \<Rightarrow> int" where
  "max_cols_of rows =
     (let max_cols = fold (\<lambda>row max_cols. max max_cols (span_total row)) rows 0
      in if max_cols = 0 then 1 else max_cols)"

text \<open>The column type with the width of one column, as both f-strings write it.\<close>

definition column_width :: "int \<Rightarrow> string" where
  "column_width max_cols =
     ''p{'' @ [bs] @ ''dimexpr'' @ [bs] @ ''linewidth/'' @ py_str_int max_cols @ ''-2'' @ [bs]
     @ ''tabcolsep'' @ [bs] @ ''relax}''"

definition cell_part :: "int \<Rightarrow> string \<times> int \<Rightarrow> string" where
  "cell_part max_cols cell =
     (let cell_content = (if fst cell \<noteq> [] then fst cell else bs # ''quad{}'')
      in if snd cell > 1
         then bs # ''multicolumn{'' @ py_str_int (snd cell) @ ''}{|'' @ column_width max_cols @ ''|}{''
              @ cell_content @ ''}''
         else cell_content)"

definition row_line :: "int \<Rightarrow> (string \<times> int) list \<Rightarrow> string" where
  "row_line max_cols row = join '' & '' (map (cell_part max_cols) row) @ '' '' @ [bs, bs]"

text \<open>The second half of \<open>_convert_table\<close>, from the rows to the lines.\<close>

definition table_lines :: "(string \<times> int) list list \<Rightarrow> string list" where
  "table_lines rows =
     (let max_cols = max_cols_of rows;
          column_spec = ''|'' @ join ''|'' (replicate (nat max_cols) (column_width max_cols)) @ ''|''
      in [bs # ''begin{longtable}{'' @ column_spec @ ''}'', bs # ''hline'']
         @ concat (map (\<lambda>row. [row_line max_cols row, bs # ''hline'']) rows)
         @ [bs # ''end{longtable}''])"

definition convert_table :: "converter \<Rightarrow> element \<Rightarrow> error + string list" where
  "convert_table cv table =
     (case rows_data cv (findall (W_NS, ''tr'') table) of
        Inl err \<Rightarrow> Inl err
      | Inr rows \<Rightarrow> Inr (table_lines rows))"

subsection \<open>Paragraphs\<close>

definition paragraph_style :: "element \<Rightarrow> string option" where
  "paragraph_style paragraph =
     (case find_child (W_NS, ''pPr'') paragraph of
        None \<Rightarrow> None
      | Some ppr \<Rightarrow>
          (case find_child (W_NS, ''pStyle'') ppr of
             None \<Rightarrow> None
           | Some style \<Rightarrow> attrib_get style (W_NS, ''val'')))"

text \<open>The level that \<open>_extract_list_info\<close> reads from \<open>w:numPr\<close>.\<close>

definition list_level :: "element \<Rightarrow> int" where
  "list_level num_pr =
     (case find_child (W_NS, ''ilvl'') num_pr of
        None \<Rightarrow> 0
      | Some ilvl_elem \<Rightarrow>
          (case py_int (attrib_get_default ilvl_elem (W_NS, ''val'') ''0'') of
             None \<Rightarrow> 0
           | Some n \<Rightarrow> n))"

text \<open>\<open>self.num_formats.get(num_id, {}).get(level, "bullet")\<close>\<close>

definition list_format :: "converter \<Rightarrow> string \<Rightarrow> int \<Rightarrow> string" where
  "list_format cv nid lvl =
     (case num_formats cv nid of
        None \<Rightarrow> ''bullet''
      | Some levels \<Rightarrow> (case levels lvl of None \<Rightarrow> ''bullet'' | Some fmt \<Rightarrow> fmt))"

definition extract_list_info :: "converter \<Rightarrow> element \<Rightarrow> ListState option" where
  "extract_list_info cv paragraph =
     (case find_child (W_NS, ''pPr'') paragraph of
        None \<Rightarrow> None
      | Some ppr \<Rightarrow>
          (case find_child (W_NS, ''numPr'') ppr of
             None \<Rightarrow> None
           | Some num_pr \<Rightarrow>
               (case find_child (W_NS, ''numId'') num_pr of
                  None \<Rightarrow> None
                | Some num_id_elem \<Rightarrow>
                    (case attrib_get num_id_elem (W_NS, ''val'') of
                       None \<Rightarrow> None
                     | Some nid \<Rightarrow>
                         if nid = [] then None
                         else (let lvl = list_level num_pr;
                                   fmt = list_format cv nid lvl;
                                   e = (if fmt = ''bullet'' then ''itemize'' else ''enumerate'')
                               in Some \<lparr>level = lvl, env = e, num_id = nid\<rparr>)))))"

text \<open>The lines of a paragraph outside a list, before the blocks are added.\<close>

definition plain_lines :: "string option \<Rightarrow> string \<Rightarrow> string list" where
  "plain_lines style text_content =
     (if style = Some ''Heading1'' \<and> text_content \<noteq> [] then [bs # ''section{'' @ text_content @ ''}'']
      else if style = Some ''Heading2'' \<and> text_content \<noteq> [] then [bs # ''subsection{'' @ text_content @ ''}'']
      else if style = Some ''Heading3'' \<and> text_content \<noteq> [] then [bs # ''subsubsection{'' @ text_content @ ''}'']
      else if style = Some ''Title'' \<and> text_content \<noteq> [] then [bs # ''title{'' @ text_content @ ''}'', bs # ''maketitle'']
      else if text_content \<noteq> [] then [text_content]
      else [])"

definition convert_paragraph :: "converter \<Rightarrow> element \<Rightarrow> bool \<Rightarrow> bool \<Rightarrow> ListState list
    \<Rightarrow> error + (string list \<times> ListState list)" where
  "convert_paragraph cv paragraph in_table suppress_list stack =
     (let list_info = (if suppress_list then None else extract_list_info cv paragraph);
          synced = (if \<not> in_table then sync_list_stack list_info stack else ([], stack));
          lines = fst synced;
          stack' = snd synced
      in case collect_runs cv paragraph of
           Inl err \<Rightarrow> Inl err
         | Inr r \<Rightarrow>
             (let text_content = normalize_whitespace (fst r);
                  block_fragments = snd r;
                  style = paragraph_style paragraph
              in if list_info \<noteq> None \<and> \<not> suppress_list
                 then (if text_content = [] \<and> block_fragments = [] then Inr (lines, stack')
                       else Inr (lines
                                 @ [bs # ''item'' @ (if text_content \<noteq> [] then '' '' @ text_content else [])]
                                 @ block_fragments, stack'))
                 else (let lines = lines @ plain_lines style text_content @ block_fragments
                       in if lines \<noteq> [] \<and> last lines = [] then Inr (lines, stack')
                          else if \<not> in_table \<and> lines \<noteq> [] then Inr (lines @ [[]], stack')
                          else Inr (lines, stack'))))"

subsection \<open>Blocks and the body\<close>

definition convert_block :: "converter \<Rightarrow> element \<Rightarrow> ListState list
    \<Rightarrow> error + (string list \<times> ListState list)" where
  "convert_block cv element stack =
     (if tag element = (W_NS, ''p'') then convert_paragraph cv element False False stack
      else if tag element = (W_NS, ''tbl'') then
        (let closed = close_all_lists stack
         in case convert_table cv element of
              Inl err \<Rightarrow> Inl err
            | Inr table_out \<Rightarrow> Inr (fst closed @ table_out @ [[]], snd closed))
      else if tag element = (W_NS, ''sectPr'') then Inr (close_all_lists stack)
      else Inr ([], stack))"

text \<open>The loop of \<open>convert\<close> over the children of the body.\<close>

fun convert_blocks :: "converter \<Rightarrow> element list \<Rightarrow> ListState list
    \<Rightarrow> error + (string list \<times> ListState list)" where
  "convert_blocks cv [] stack = Inr ([], stack)"
| "convert_blocks cv (child # rest) stack =
     (case convert_block cv child stack of
        Inl err \<Rightarrow> Inl err
      | Inr r \<Rightarrow>
          (case convert_blocks cv rest (snd r) of
             Inl err \<Rightarrow> Inl err
           | Inr rs \<Rightarrow> Inr (fst r @ fst rs, snd rs)))"

text \<open>
  The end of \<open>convert\<close>: the loop over the body, the final \<open>_close_all_lists\<close> and the
  closing line. The preamble and the header lines come before it in the output; the
  stack the loop starts with is the one the notes and the headers have left.
\<close>

definition convert_body :: "converter \<Rightarrow> element \<Rightarrow> ListState list
    \<Rightarrow> error + (string list \<times> ListState list)" where
  "convert_body cv body stack =
     (case convert_blocks cv (children body) stack of
        Inl err \<Rightarrow> Inl err
      | Inr r \<Rightarrow>
          (let closed = close_all_lists (snd r)
           in Inr (fst r @ fst closed @ [bs # ''end{document}''], snd closed)))"

section \<open>Properties of the emitted lines\<close>

text \<open>
  A call on the stack is balanced when the open directives it emits and the depth before
  add up to the close directives it emits and the depth after.
\<close>

definition balanced :: "ListState list \<Rightarrow> string list \<times> ListState list \<Rightarrow> bool" where
  "balanced stack r = (opens (fst r) + length stack = closes (fst r) + length (snd r))"

text \<open>Lines that are all open or close directives, and the line of a list item.\<close>

definition directives :: "string list \<Rightarrow> bool" where
  "directives ls = list_all (\<lambda>l. is_open l \<or> is_close l) ls"

definition is_item :: "string \<Rightarrow> bool" where
  "is_item line = (take 5 line = bs # ''item'')"

section \<open>Example documents\<close>

text \<open>
  Concrete inputs for the evaluations below: converters with an empty package, with one
  hyperlink relationship and with one image; list paragraphs, plain paragraphs, runs with
  and without run properties, hyperlinks, table cells, drawings and the rows of a table.
\<close>

definition cv0 :: converter where
  "cv0 = \<lparr>relationships = Map.empty, num_formats = Map.empty, zip_has = (\<lambda>_. False),
          media_tex_path = (\<lambda>t. t)\<rparr>"

definition list_ppr :: "string \<Rightarrow> string \<Rightarrow> element" where
  "list_ppr nid lvl =
     Element (W_NS, ''pPr'') [] None
       [Element (W_NS, ''numPr'') [] None
          [Element (W_NS, ''ilvl'') [((W_NS, ''val''), lvl)] None [],
           Element (W_NS, ''numId'') [((W_NS, ''val''), nid)] None []]]"

definition text_run :: "string \<Rightarrow> element" where
  "text_run s = Element (W_NS, ''r'') [] None [Element (W_NS, ''t'') [] (Some s) []]"

definition list_par :: "string \<Rightarrow> string \<Rightarrow> element list \<Rightarrow> element" where
  "list_par nid lvl runs = Element (W_NS, ''p'') [] None (list_ppr nid lvl # runs)"

definition styled_run :: "element list \<Rightarrow> string \<Rightarrow> element" where
  "styled_run props s =
     Element (W_NS, ''r'') [] None
       [Element (W_NS, ''rPr'') [] None props, Element (W_NS, ''t'') [] (Some s) []]"

definition cv_link :: converter where
  "cv_link = \<lparr>relationships = [''rId5'' \<mapsto> (''http://x/hyperlink'', ''http://a.org/b_c'')],
              num_formats = Map.empty, zip_has = (\<lambda>_. False), media_tex_path = (\<lambda>t. t)\<rparr>"

definition link_of :: "(qname \<times> string) list \<Rightarrow> element list \<Rightarrow> element" where
  "link_of attrs runs = Element (W_NS, ''hyperlink'') attrs None runs"

definition span_cell :: "string \<Rightarrow> element" where
  "span_cell v =
     Element (W_NS, ''tc'') [] None
       [Element (W_NS, ''tcPr'') [] None [Element (W_NS, ''gridSpan'') [((W_NS, ''val''), v)] None []]]"

definition cv_image :: converter where
  "cv_image = \<lparr>relationships = [''rId7'' \<mapsto> (''http://schemas/relationships/image'', ''media/image1.png'')],
               num_formats = Map.empty,
               zip_has = (\<lambda>member. member = ''word/media/image1.png''),
               media_tex_path = (\<lambda>target. ''paper_media/image1.png'')\<rparr>"

definition picture :: "element list \<Rightarrow> element" where
  "picture extents =
     Element (WP_NS, ''inline'') [] None
       (extents @
        [Element (A_NS, ''graphic'') [] None
           [Element (A_NS, ''graphicData'') [] None
              [Element (PIC_NS, ''pic'') [] None
                 [Element (PIC_NS, ''blipFill'') [] None
                    [Element (A_NS, ''blip'') [((R_NS, ''embed''), ''rId7'')] None []]]]]])"

definition drawing_of :: "element list \<Rightarrow> element" where
  "drawing_of extents = Element (W_NS, ''drawing'') [] None [picture extents]"

definition extent_of :: "string \<Rightarrow> element" where
  "extent_of cx = Element (WP_NS, ''extent'') [((No_NS, ''cx''), cx), ((No_NS, ''cy''), ''457200'')] None []"

definition rows_231 :: "(string \<times> int) list list" where
  "rows_231 = [[(''a'', 1), (''b'', 1)], [(''c'', 1), ('''', 1), (''e'', 1)], [(''f'', 1)]]"




definition table_2x :: element where
  "table_2x =
     Element (W_NS, ''tbl'') [] None
       [Element (W_NS, ''tr'') [] None
          [Element (W_NS, ''tc'') [] None
             [Element (W_NS, ''tcPr'') [] None [Element (W_NS, ''gridSpan'') [((W_NS, ''val''), ''2'')] None []],
              Element (W_NS, ''p'') [] None [text_run ''x'']]],
        Element (W_NS, ''tr'') [] None
          [Element (W_NS, ''tc'') [] None [Element (W_NS, ''p'') [] None [text_run ''a'']],
           Element (W_NS, ''tc'') [] None [Element (W_NS, ''p'') [] None []]]]"

section \<open>Whitespace normalisation in the words of the specification\<close>

text \<open>
  The words of a text: the maximal runs of characters that are not whitespace, in order.
\<close>

function ws_words :: "string \<Rightarrow> string list" where
  "ws_words s =
     (case dropWhile is_space s of
        [] \<Rightarrow> []
      | c # cs \<Rightarrow>
          (c # takeWhile (\<lambda>x. \<not> is_space x) cs) # ws_words (dropWhile (\<lambda>x. \<not> is_space x) cs))"
  by pat_completeness auto
termination
proof (relation "measure length")
  show "wf (measure length)"
    by simp
next
  fix s :: string and c cs
  assume a: "dropWhile is_space s = c # cs"
  have "length (dropWhile (\<lambda>x. \<not> is_space x) cs) \<le> length cs"
    by (rule length_dropWhile_le)
  moreover have "length (dropWhile is_space s) \<le> length s"
    by (rule length_dropWhile_le)
  ultimately show "(dropWhile (\<lambda>x. \<not> is_space x) cs, s) \<in> measure length"
    using a by simp
qed

declare ws_words.simps [simp del]


section \<open>Evaluation\<close>

lemma digits_of_small: "n < 10 \<Longrightarrow> digits_of n = [digit_char n]"
  by (simp add: digits_of.simps)

lemma digits_of_large: "\<not> n < 10 \<Longrightarrow> digits_of n = digits_of (n div 10) @ [digit_char (n mod 10)]"
  by (subst digits_of.simps) simp

lemma bit_length_0: "bit_length 0 = 0"
  by (simp add: bit_length.simps)

lemma bit_length_pos: "0 < n \<Longrightarrow> bit_length n = Suc (bit_length (n div 2))"
  by (subst bit_length.simps) simp

lemmas num_eval = digits_of_small digits_of_large bit_length_0 bit_length_pos digit_char_def

lemmas float_eval = true_div_def float_result_def float_overflow_def quotient_mantissa_def
  quotient_exponent_def scaled_def round_half_even_def format_2f_def print_hundredths_def
  hundredths_def two_digits_def EMU_PER_INCH_def

lemmas string_eval = py_strip_def is_space_def normalize_whitespace_def py_int_def int_strip_def
  is_int_space_def int_max_str_digits_def is_digit_def
  digit_val_def py_lower_def lower_char_def endswith_def

lemmas xml_eval = attrib_get_def attrib_get_default_def find_child_def findall_def find_desc_def
  findall_desc_def

section \<open>The list state machine\<close>

lemma close_all_lists_eq:
  "close_all_lists stack = (map (\<lambda>s. end_line (env s)) (rev stack), [])"
proof (induction stack rule: rev_induct)
  case Nil
  show ?case by (subst close_all_lists.simps) simp
next
  case (snoc x xs)
  show ?case by (subst close_all_lists.simps) (simp add: snoc)
qed

lemma close_deeper_stop:
  "stack = [] \<or> \<not> level target < level (last stack) \<Longrightarrow> close_deeper target stack = ([], stack)"
  by (subst close_deeper.simps) auto

lemma close_deeper_step:
  "level target < level x \<Longrightarrow>
   close_deeper target (xs @ [x]) =
     (end_line (env x) # fst (close_deeper target xs), snd (close_deeper target xs))"
  by (subst close_deeper.simps) (simp add: Let_def)

lemma open_levels_stop:
  "stack \<noteq> [] \<Longrightarrow> \<not> level (last stack) < level target \<Longrightarrow> open_levels target stack = ([], stack)"
  by (subst open_levels.simps) simp

lemma open_levels_step:
  "stack = [] \<or> level (last stack) < level target \<Longrightarrow>
   open_levels target stack =
     (begin_line (env target)
        # fst (open_levels target (stack @ [\<lparr>level = int (length stack), env = env target, num_id = num_id target\<rparr>])),
      snd (open_levels target (stack @ [\<lparr>level = int (length stack), env = env target, num_id = num_id target\<rparr>])))"
  by (subst open_levels.simps) (simp add: Let_def)

lemma is_open_begin: "is_open (begin_line e)" "\<not> is_close (begin_line e)"
  by (simp_all add: is_open_def is_close_def begin_line_def)

lemma is_close_end: "is_close (end_line e)" "\<not> is_open (end_line e)"
  by (simp_all add: is_open_def is_close_def end_line_def)

lemma opens_simps:
  "opens [] = 0" "opens (begin_line e # ls) = Suc (opens ls)" "opens (end_line e # ls) = opens ls"
  "opens (xs @ ys) = opens xs + opens ys"
  by (simp_all add: opens_def is_open_begin is_close_end)

lemma closes_simps:
  "closes [] = 0" "closes (begin_line e # ls) = closes ls" "closes (end_line e # ls) = Suc (closes ls)"
  "closes (xs @ ys) = closes xs + closes ys"
  by (simp_all add: closes_def is_open_begin is_close_end)

lemma balanced_close_all: "balanced stack (close_all_lists stack)"
  by (induction stack rule: rev_induct)
     (simp_all add: balanced_def close_all_lists_eq opens_simps closes_simps)

lemma balanced_close_deeper: "balanced stack (close_deeper target stack)"
proof (induction target stack rule: close_deeper.induct)
  case (1 target stack)
  show ?case
  proof (cases "stack \<noteq> [] \<and> level target < level (last stack)")
    case True
    then obtain xs x where s: "stack = xs @ [x]"
      by (metis append_butlast_last_id)
    with True 1 have "balanced xs (close_deeper target xs)"
      by simp
    with s True show ?thesis
      by (simp add: close_deeper_step balanced_def opens_simps closes_simps)
  next
    case False
    then show ?thesis by (simp add: close_deeper_stop balanced_def opens_simps closes_simps)
  qed
qed

lemma balanced_open_levels: "balanced stack (open_levels target stack)"
proof (induction target stack rule: open_levels.induct)
  case (1 target stack)
  show ?case
  proof (cases "stack = [] \<or> level (last stack) < level target")
    case True
    with 1 have "balanced (stack @ [\<lparr>level = int (length stack), env = env target, num_id = num_id target\<rparr>])
        (open_levels target (stack @ [\<lparr>level = int (length stack), env = env target, num_id = num_id target\<rparr>]))"
      by simp
    with True show ?thesis
      by (subst open_levels_step) (simp_all add: balanced_def opens_simps closes_simps)
  next
    case False
    then show ?thesis by (simp add: open_levels_stop balanced_def opens_simps closes_simps)
  qed
qed

lemma length_butlast_Suc: "stack \<noteq> [] \<Longrightarrow> Suc (length (butlast stack)) = length stack"
  by simp

lemma balanced_close_same_level: "balanced stack (close_same_level target stack)"
  by (simp add: balanced_def close_same_level_def Let_def opens_simps closes_simps
      opens_simps(2) [where ls = "[]"] closes_simps(3) [where ls = "[]"] length_butlast_Suc)

lemma balanced_open_target: "balanced stack (open_target target stack)"
  by (simp add: balanced_def open_target_def opens_simps closes_simps
      opens_simps(2) [where ls = "[]"] closes_simps(3) [where ls = "[]"]
      opens_simps(3) [where ls = "[begin_line e]" for e] closes_simps(3) [where ls = "[begin_line e]" for e]
      closes_simps(2) [where ls = "[]"] length_butlast_Suc)

lemma balanced_sync: "balanced stack (sync_list_stack target stack)"
proof (cases target)
  case None
  then show ?thesis by (simp add: sync_list_stack_def balanced_close_all)
next
  case (Some t)
  define r1 where "r1 = close_deeper t stack"
  define r2 where "r2 = close_same_level t (snd r1)"
  define r3 where "r3 = open_levels t (snd r2)"
  define r4 where "r4 = open_target t (snd r3)"
  have "balanced stack r1" "balanced (snd r1) r2" "balanced (snd r2) r3" "balanced (snd r3) r4"
    unfolding r1_def r2_def r3_def r4_def
    by (rule balanced_close_deeper balanced_close_same_level balanced_open_levels balanced_open_target)+
  moreover have "sync_list_stack target stack = (fst r1 @ fst r2 @ fst r3 @ fst r4, snd r4)"
    by (simp add: Some sync_list_stack_def Let_def r1_def r2_def r3_def r4_def)
  ultimately show ?thesis
    by (simp add: balanced_def opens_simps closes_simps)
qed

lemma balanced_drive: "balanced stack (drive ts stack)"
proof (induction ts arbitrary: stack)
  case Nil
  show ?case by (simp add: balanced_def opens_simps closes_simps)
next
  case (Cons t ts)
  from balanced_sync [of stack t] Cons [of "snd (sync_list_stack t stack)"] show ?case
    by (simp add: balanced_def Let_def opens_simps closes_simps)
qed

lemma drive_append:
  "drive (xs @ ys) stack =
     (fst (drive xs stack) @ fst (drive ys (snd (drive xs stack))), snd (drive ys (snd (drive xs stack))))"
  by (induction xs arbitrary: stack) (simp_all add: Let_def)

lemma sync_same_top:
  assumes "stack \<noteq> []" "last stack = t"
  shows "sync_list_stack (Some t) stack = ([], stack)"
proof -
  from assms have "close_deeper t stack = ([], stack)"
    by (simp add: close_deeper_stop)
  moreover from assms have "close_same_level t stack = ([], stack)"
    by (simp add: close_same_level_def)
  moreover from assms have "open_levels t stack = ([], stack)"
    by (simp add: open_levels_stop)
  moreover from assms have "open_target t stack = ([], stack)"
    by (simp add: open_target_def)
  ultimately show ?thesis
    by (simp add: sync_list_stack_def)
qed

lemma only_directives_close_all: "\<forall>l \<in> set (fst (close_all_lists stack)). is_close l"
  by (simp add: close_all_lists_eq is_close_end)

lemma levels_ok_Nil: "levels_ok []"
  by (simp add: levels_ok_def)

lemma levels_ok_snoc:
  "levels_ok (xs @ [x]) \<longleftrightarrow> levels_ok xs \<and> level x = int (length xs)"
  by (auto simp: levels_ok_def)

lemma levels_ok_butlast: "levels_ok stack \<Longrightarrow> levels_ok (butlast stack)"
  by (cases stack rule: rev_cases) (simp_all add: levels_ok_snoc)

lemma levels_ok_last: "levels_ok stack \<Longrightarrow> stack \<noteq> [] \<Longrightarrow> level (last stack) = int (length stack) - 1"
  by (cases stack rule: rev_cases) (simp_all add: levels_ok_snoc)

lemma levels_ok_close_deeper: "levels_ok stack \<Longrightarrow> levels_ok (snd (close_deeper target stack))"
proof (induction target stack rule: close_deeper.induct)
  case (1 target stack)
  show ?case
  proof (cases "stack \<noteq> [] \<and> level target < level (last stack)")
    case True
    then obtain xs x where s: "stack = xs @ [x]"
      by (metis append_butlast_last_id)
    with True 1 have "levels_ok (snd (close_deeper target xs))"
      by (simp add: levels_ok_snoc)
    with s True show ?thesis
      by (simp add: close_deeper_step)
  next
    case False
    with 1 show ?thesis by (simp add: close_deeper_stop)
  qed
qed

lemma levels_ok_close_same_level:
  "levels_ok stack \<Longrightarrow> levels_ok (snd (close_same_level target stack))"
  by (simp add: close_same_level_def Let_def levels_ok_butlast)

lemma levels_ok_open_levels: "levels_ok stack \<Longrightarrow> levels_ok (snd (open_levels target stack))"
proof (induction target stack rule: open_levels.induct)
  case (1 target stack)
  show ?case
  proof (cases "stack = [] \<or> level (last stack) < level target")
    case True
    with 1 have "levels_ok (snd (open_levels target
        (stack @ [\<lparr>level = int (length stack), env = env target, num_id = num_id target\<rparr>])))"
      by (simp add: levels_ok_snoc)
    with True show ?thesis
      by (subst open_levels_step) simp_all
  next
    case False
    with 1 show ?thesis by (simp add: open_levels_stop)
  qed
qed

lemma open_levels_exit:
  "snd (open_levels target stack) \<noteq> []
   \<and> \<not> level (last (snd (open_levels target stack))) < level target"
proof (induction target stack rule: open_levels.induct)
  case (1 target stack)
  show ?case
  proof (cases "stack = [] \<or> level (last stack) < level target")
    case True
    with 1 show ?thesis
      by (subst (1 2) open_levels_step) simp_all
  next
    case False
    then show ?thesis by (simp add: open_levels_stop)
  qed
qed

text \<open>After the second loop the three branches that follow change nothing but the top's
  environment and numbering, and on a stack whose levels count up they change nothing.\<close>

lemma levels_ok_open_target:
  assumes "levels_ok stack" "stack \<noteq> []" "\<not> level (last stack) < level target"
  shows "levels_ok (snd (open_target target stack))"
proof -
  from assms(2) obtain xs x where s: "stack = xs @ [x]"
    by (metis append_butlast_last_id)
  with assms show ?thesis
    by (auto simp: open_target_def levels_ok_snoc)
qed

lemma levels_ok_sync: "levels_ok stack \<Longrightarrow> levels_ok (snd (sync_list_stack target stack))"
proof (cases target)
  case None
  then show ?thesis by (simp add: sync_list_stack_def close_all_lists_eq levels_ok_Nil)
next
  case (Some t)
  assume ok: "levels_ok stack"
  define s2 where "s2 = snd (close_same_level t (snd (close_deeper t stack)))"
  have "levels_ok s2"
    unfolding s2_def by (intro levels_ok_close_same_level levels_ok_close_deeper ok)
  then have "levels_ok (snd (open_levels t s2))"
    by (rule levels_ok_open_levels)
  with open_levels_exit [of t s2] have "levels_ok (snd (open_target t (snd (open_levels t s2))))"
    by (intro levels_ok_open_target) simp_all
  then show ?thesis
    by (simp add: Some sync_list_stack_def Let_def s2_def)
qed

lemma open_target_nonempty: "stack \<noteq> [] \<Longrightarrow> snd (open_target target stack) \<noteq> []"
  by (simp add: open_target_def)

lemma sync_some_nonempty: "snd (sync_list_stack (Some t) stack) \<noteq> []"
  using open_levels_exit [of t "snd (close_same_level t (snd (close_deeper t stack)))"]
  by (simp add: sync_list_stack_def Let_def open_target_nonempty)

lemma sync_none_empty: "snd (sync_list_stack None stack) = []"
  by (simp add: sync_list_stack_def close_all_lists_eq)

lemma levels_ok_drive: "levels_ok stack \<Longrightarrow> levels_ok (snd (drive ts stack))"
  by (induction ts arbitrary: stack) (simp_all add: Let_def levels_ok_sync)

subsection \<open>Every line of the machine is a directive\<close>

lemma directives_simps:
  "directives []" "directives (begin_line e # ls) = directives ls"
  "directives (end_line e # ls) = directives ls"
  "directives (xs @ ys) = (directives xs \<and> directives ys)"
  by (simp_all add: directives_def is_open_begin is_close_end)

lemma directives_close_all: "directives (fst (close_all_lists stack))"
  by (simp add: close_all_lists_eq directives_def list_all_iff is_close_end)

lemma directives_close_deeper: "directives (fst (close_deeper target stack))"
proof (induction target stack rule: close_deeper.induct)
  case (1 target stack)
  show ?case
  proof (cases "stack \<noteq> [] \<and> level target < level (last stack)")
    case True
    then obtain xs x where s: "stack = xs @ [x]"
      by (metis append_butlast_last_id)
    with True 1 have "directives (fst (close_deeper target xs))"
      by simp
    with s True show ?thesis
      by (simp add: close_deeper_step directives_simps)
  next
    case False
    then show ?thesis by (simp add: close_deeper_stop directives_simps)
  qed
qed

lemma directives_open_levels: "directives (fst (open_levels target stack))"
proof (induction target stack rule: open_levels.induct)
  case (1 target stack)
  show ?case
  proof (cases "stack = [] \<or> level (last stack) < level target")
    case True
    with 1 show ?thesis
      by (subst open_levels_step) (simp_all add: directives_simps)
  next
    case False
    then show ?thesis by (simp add: open_levels_stop directives_simps)
  qed
qed

lemma directives_sync: "directives (fst (sync_list_stack target stack))"
proof (cases target)
  case None
  then show ?thesis by (simp add: sync_list_stack_def directives_close_all)
next
  case (Some t)
  have "directives (fst (close_same_level t s))" "directives (fst (open_target t s))" for s
    by (simp_all add: close_same_level_def open_target_def Let_def directives_def
        is_open_begin is_close_end)
  then show ?thesis
    by (simp add: Some sync_list_stack_def Let_def directives_simps directives_close_deeper
        directives_open_levels)
qed

lemma close_deeper_pop:
  "stack \<noteq> [] \<Longrightarrow> level target < level (last stack) \<Longrightarrow>
   close_deeper target stack =
     (end_line (env (last stack)) # fst (close_deeper target (butlast stack)),
      snd (close_deeper target (butlast stack)))"
  by (subst close_deeper.simps) (simp add: Let_def)

lemmas stack_eval = sync_list_stack_def close_all_lists_eq close_deeper_stop close_deeper_pop
  close_same_level_def open_levels_stop open_levels_step open_target_def begin_line_def
  end_line_def Let_def

lemmas conv_eval = cv0_def list_ppr_def text_run_def list_par_def extract_list_info_def
  list_level_def list_format_def collect_runs_def collect_runs_child_def run_part_def
  convert_run_def convert_run_child_def format_run_text_def paragraph_style_def
  convert_paragraph_def convert_block_def plain_lines_def escape_latex_def replacement_def
  replacements_def

lemma open_not_item: "is_open l \<Longrightarrow> \<not> is_item l"
proof -
  assume "is_open l"
  then have "take 5 (take 7 l) = take 5 (bs # ''begin{'')"
    by (simp only: is_open_def)
  then have "take 5 l = bs # ''begi''"
    by simp
  then show ?thesis
    by (simp add: is_item_def)
qed

lemma close_not_item: "is_close l \<Longrightarrow> \<not> is_item l"
proof -
  assume "is_close l"
  then have "take 5 l = bs # ''end{''"
    by (simp only: is_close_def)
  then show ?thesis
    by (simp add: is_item_def)
qed

lemma directives_no_item: "directives ls \<Longrightarrow> l \<in> set ls \<Longrightarrow> \<not> is_item l"
  using open_not_item close_not_item by (auto simp: directives_def list_all_iff)

subsection \<open>Paragraphs, blocks and the stack\<close>

lemma convert_paragraph_stack:
  assumes "convert_paragraph cv p in_table suppress_list stack = Inr (ls, stack')"
  shows "stack' = (if in_table then stack
                   else snd (sync_list_stack (if suppress_list then None else extract_list_info cv p) stack))"
  using assms
  by (auto simp: convert_paragraph_def Let_def split: sum.splits if_splits)

lemma convert_block_paragraph:
  "tag e = (W_NS, ''p'') \<Longrightarrow> convert_block cv e stack = convert_paragraph cv e False False stack"
  by (simp add: convert_block_def)

lemma convert_block_unsupported:
  "tag e \<noteq> (W_NS, ''p'') \<Longrightarrow> tag e \<noteq> (W_NS, ''tbl'') \<Longrightarrow> tag e \<noteq> (W_NS, ''sectPr'') \<Longrightarrow>
   convert_block cv e stack = Inr ([], stack)"
  by (simp add: convert_block_def)

lemma convert_block_stack:
  assumes "convert_block cv e stack = Inr (ls, stack')"
  shows "stack' =
    (if tag e = (W_NS, ''p'') then snd (sync_list_stack (extract_list_info cv e) stack)
     else if tag e = (W_NS, ''tbl'') \<or> tag e = (W_NS, ''sectPr'') then []
     else stack)"
proof (cases "tag e = (W_NS, ''p'')")
  case True
  with assms convert_paragraph_stack [of cv e False False stack ls stack'] show ?thesis
    by (simp add: convert_block_paragraph)
next
  case False
  with assms show ?thesis
    by (auto simp: convert_block_def Let_def close_all_lists_eq split: sum.splits if_splits)
qed

lemma levels_ok_convert_block:
  "convert_block cv e stack = Inr (ls, stack') \<Longrightarrow> levels_ok stack \<Longrightarrow> levels_ok stack'"
  by (drule convert_block_stack) (simp add: levels_ok_sync levels_ok_Nil)

lemma levels_ok_convert_blocks:
  "convert_blocks cv es stack = Inr (ls, stack') \<Longrightarrow> levels_ok stack \<Longrightarrow> levels_ok stack'"
proof (induction es arbitrary: stack ls)
  case Nil
  then show ?case by simp
next
  case (Cons e es)
  from Cons.prems(1) obtain l1 s1 l2 where
    b: "convert_block cv e stack = Inr (l1, s1)" and r: "convert_blocks cv es s1 = Inr (l2, stack')"
    by (auto split: sum.splits)
  from b Cons.prems(2) have "levels_ok s1"
    by (rule levels_ok_convert_block)
  with r show ?case
    by (rule Cons.IH)
qed

lemma drained_convert_block:
  assumes "convert_block cv e stack = Inr (ls, stack')"
    and "tag e = (W_NS, ''tbl'') \<or> tag e = (W_NS, ''sectPr'')
         \<or> (tag e = (W_NS, ''p'') \<and> extract_list_info cv e = None)"
  shows "stack' = []"
  using convert_block_stack [OF assms(1)] assms(2) by (auto simp: sync_none_empty)

lemma drained_convert_body:
  "convert_body cv body stack = Inr (ls, stack') \<Longrightarrow> stack' = []"
  by (auto simp: convert_body_def Let_def close_all_lists_eq split: sum.splits)

section \<open>The escaper\<close>

lemma escape_latex_Nil: "escape_latex [] = []"
  by (simp add: escape_latex_def)

lemma escape_latex_Cons: "escape_latex (c # cs) = replacement c @ escape_latex cs"
  by (simp add: escape_latex_def)

lemma escape_latex_append: "escape_latex (xs @ ys) = escape_latex xs @ escape_latex ys"
  by (simp add: escape_latex_def)

lemma dom_replacements: "dom (map_of replacements) = metachars"
  by (auto simp: replacements_def metachars_def dom_def split: if_splits)

lemma replacement_other: "c \<notin> metachars \<Longrightarrow> replacement c = [c]"
  using dom_replacements by (auto simp: replacement_def split: option.splits)

lemma replacement_meta: "c \<in> metachars \<Longrightarrow> replacement c = bs # tl (replacement c) \<and> 2 \<le> length (replacement c)"
  by (auto simp: replacement_def replacements_def metachars_def)

lemma replacement_length: "1 \<le> length (replacement c)"
  using replacement_meta [of c] by (cases "c \<in> metachars") (simp_all add: replacement_other)

lemma escape_latex_length: "length text \<le> length (escape_latex text)"
proof (induction "text")
  case Nil
  show ?case by (simp add: escape_latex_Nil)
next
  case (Cons c cs)
  with replacement_length [of c] show ?case by (simp add: escape_latex_Cons)
qed

lemma escape_latex_grows:
  "\<exists>c \<in> set text. c \<in> metachars \<Longrightarrow> length text < length (escape_latex text)"
proof (induction "text")
  case Nil
  then show ?case by simp
next
  case (Cons c cs)
  show ?case
  proof (cases "c \<in> metachars")
    case True
    with replacement_meta [of c] escape_latex_length [of cs] show ?thesis
      by (simp add: escape_latex_Cons)
  next
    case False
    with Cons show ?thesis by (simp add: escape_latex_Cons replacement_other)
  qed
qed

lemma escape_latex_has_backslash:
  "\<exists>c \<in> set text. c \<in> metachars \<Longrightarrow> bs \<in> set (escape_latex text)"
proof (induction "text")
  case Nil
  then show ?case by simp
next
  case (Cons c cs)
  show ?case
  proof (cases "c \<in> metachars")
    case True
    with replacement_meta [of c] have "bs \<in> set (replacement c)"
      by (metis list.set_intros(1))
    then show ?thesis by (simp add: escape_latex_Cons)
  next
    case False
    with Cons show ?thesis by (simp add: escape_latex_Cons)
  qed
qed

lemma escape_latex_unchanged:
  "set text \<inter> metachars = {} \<Longrightarrow> escape_latex text = text"
  by (induction "text") (simp_all add: escape_latex_Nil escape_latex_Cons replacement_other)

text \<open>
  C5. The escaper replaces exactly the ten metacharacters, each by the sequence the
  table gives, and copies every other character; escaping \<open>50% & $5\<close> once puts a
  backslash before the percent sign, the ampersand and the dollar sign; and when the text
  holds a metacharacter, so that the output holds an
  escape, escaping the output once more gives a different string.
\<close>

theorem escape_latex_contract:
  "dom (map_of replacements) = metachars
   \<and> card metachars = 10
   \<and> escape_latex text = concat (map replacement text)
   \<and> replacement bs = bs # ''textbackslash{}''
   \<and> replacement (CHR ''&'') = [bs, CHR ''&'']
   \<and> replacement (CHR ''%'') = [bs, CHR ''%'']
   \<and> replacement (CHR ''$'') = [bs, CHR ''$'']
   \<and> replacement (CHR ''#'') = [bs, CHR ''#'']
   \<and> replacement (CHR ''_'') = [bs, CHR ''_'']
   \<and> replacement (CHR ''{'') = [bs, CHR ''{'']
   \<and> replacement (CHR ''}'') = [bs, CHR ''}'']
   \<and> replacement (CHR ''~'') = bs # ''textasciitilde{}''
   \<and> replacement (CHR ''^'') = bs # ''textasciicircum{}''
   \<and> (\<forall>c. c \<notin> metachars \<longrightarrow> replacement c = [c])
   \<and> escape_latex ''50% & $5'' = ''50'' @ [bs] @ ''% '' @ [bs] @ ''& '' @ [bs] @ ''$5''
   \<and> ((\<exists>c \<in> set text. c \<in> metachars) \<longrightarrow>
        escape_latex (escape_latex text) \<noteq> escape_latex text)"
proof -
  have card: "card metachars = 10"
    by (simp add: metachars_def)
  have table:
    "replacement bs = bs # ''textbackslash{}''"
    "replacement (CHR ''&'') = [bs, CHR ''&'']"
    "replacement (CHR ''%'') = [bs, CHR ''%'']"
    "replacement (CHR ''$'') = [bs, CHR ''$'']"
    "replacement (CHR ''#'') = [bs, CHR ''#'']"
    "replacement (CHR ''_'') = [bs, CHR ''_'']"
    "replacement (CHR ''{'') = [bs, CHR ''{'']"
    "replacement (CHR ''}'') = [bs, CHR ''}'']"
    "replacement (CHR ''~'') = bs # ''textasciitilde{}''"
    "replacement (CHR ''^'') = bs # ''textasciicircum{}''"
    by (simp_all add: replacement_def replacements_def)
  have example:
    "escape_latex ''50% & $5'' = ''50'' @ [bs] @ ''% '' @ [bs] @ ''& '' @ [bs] @ ''$5''"
    by (simp add: escape_latex_def replacement_def replacements_def)
  have twice: "escape_latex (escape_latex text) \<noteq> escape_latex text"
    if "\<exists>c \<in> set text. c \<in> metachars"
  proof -
    from that have "bs \<in> set (escape_latex text)"
      by (rule escape_latex_has_backslash)
    moreover have "bs \<in> metachars"
      by (simp add: metachars_def)
    ultimately have "length (escape_latex text) < length (escape_latex (escape_latex text))"
      by (intro escape_latex_grows) blast
    then show ?thesis by auto
  qed
  show ?thesis
    using dom_replacements card table example twice replacement_other
    by (simp add: escape_latex_def)
qed

theorem escape_latex_contract_witness:
  "(\<exists>c \<in> set ''a&b''. c \<in> metachars)
   \<and> escape_latex (escape_latex ''a&b'') \<noteq> escape_latex ''a&b''
   \<and> CHR ''a'' \<notin> metachars \<and> replacement (CHR ''a'') = ''a''"
proof -
  have h: "\<exists>c \<in> set ''a&b''. c \<in> metachars"
    by (simp add: metachars_def)
  have n: "CHR ''a'' \<notin> metachars"
    by (simp add: metachars_def)
  from escape_latex_contract [of "''a&b''"] h n show ?thesis
    by blast
qed

section \<open>Claims about the list stack\<close>

lemma sync_example_open:
  "sync_list_stack (Some \<lparr>level = 0, env = ''itemize'', num_id = ''1''\<rparr>) [] =
     ([bs # ''begin{itemize}''], [\<lparr>level = 0, env = ''itemize'', num_id = ''1''\<rparr>])"
  by (simp add: stack_eval)

text \<open>
  C3. When the list state machine is driven from the empty stack through any sequence of
  paragraph targets, the open directives minus the close directives emitted for a prefix
  of the sequence equal the depth of the stack after that prefix, and the lines of the
  whole sequence start with the lines of the prefix. A paragraph whose target equals the
  top entry in level, environment and numbering identity emits nothing and leaves the
  stack as it is, so no close and reopen of the same state.
\<close>

theorem list_machine_balance:
  "int (opens (fst (drive pre []))) - int (closes (fst (drive pre []))) = int (length (snd (drive pre [])))
   \<and> drive (pre @ post) [] =
       (fst (drive pre []) @ fst (drive post (snd (drive pre []))),
        snd (drive post (snd (drive pre []))))
   \<and> directives (fst (sync_list_stack target stack))
   \<and> (stack \<noteq> [] \<and> last stack = t \<longrightarrow> sync_list_stack (Some t) stack = ([], stack))"
proof -
  from balanced_drive [of "[]" pre]
  have "int (opens (fst (drive pre []))) - int (closes (fst (drive pre []))) = int (length (snd (drive pre [])))"
    by (simp add: balanced_def)
  then show ?thesis
    using drive_append [of pre post "[]"] directives_sync [of target stack] sync_same_top [of stack t]
    by simp
qed

theorem list_machine_balance_witness:
  "[\<lparr>level = 0, env = ''itemize'', num_id = ''1''\<rparr>] \<noteq> []
   \<and> last [\<lparr>level = 0, env = ''itemize'', num_id = ''1''\<rparr>] = \<lparr>level = 0, env = ''itemize'', num_id = ''1''\<rparr>
   \<and> sync_list_stack (Some \<lparr>level = 0, env = ''itemize'', num_id = ''1''\<rparr>)
         [\<lparr>level = 0, env = ''itemize'', num_id = ''1''\<rparr>]
       = ([], [\<lparr>level = 0, env = ''itemize'', num_id = ''1''\<rparr>])
   \<and> int (opens (fst (drive [Some \<lparr>level = 0, env = ''itemize'', num_id = ''1''\<rparr>] [])))
       - int (closes (fst (drive [Some \<lparr>level = 0, env = ''itemize'', num_id = ''1''\<rparr>] [])))
       = int (length (snd (drive [Some \<lparr>level = 0, env = ''itemize'', num_id = ''1''\<rparr>] [])))
   \<and> snd (drive [Some \<lparr>level = 0, env = ''itemize'', num_id = ''1''\<rparr>] [])
       = [\<lparr>level = 0, env = ''itemize'', num_id = ''1''\<rparr>]"
  using list_machine_balance [of "[Some \<lparr>level = 0, env = ''itemize'', num_id = ''1''\<rparr>]" "[]" None
      "[\<lparr>level = 0, env = ''itemize'', num_id = ''1''\<rparr>]" "\<lparr>level = 0, env = ''itemize'', num_id = ''1''\<rparr>"]
    sync_example_open
  by simp

text \<open>
  A level below 0 is outside the levels the stack can hold: the second loop opens level
  0 for it, and the next paragraph with the same target closes that level and opens it
  again.
\<close>

lemma sync_negative_level:
  "sync_list_stack (Some \<lparr>level = - 1, env = ''itemize'', num_id = ''1''\<rparr>)
       [\<lparr>level = 0, env = ''itemize'', num_id = ''1''\<rparr>] =
     ([bs # ''end{itemize}'', bs # ''begin{itemize}''], [\<lparr>level = 0, env = ''itemize'', num_id = ''1''\<rparr>])"
  by (simp add: stack_eval)

lemma list_par_info:
  "extract_list_info cv0 (list_par ''1'' ''0'' runs) = Some \<lparr>level = 0, env = ''itemize'', num_id = ''1''\<rparr>"
  by (simp add: conv_eval xml_eval string_eval)

lemma empty_list_par_runs: "collect_runs cv0 (list_par ''1'' ''0'' []) = Inr ([], [])"
  by (simp add: conv_eval xml_eval string_eval)

text \<open>
  C9. A list paragraph of the body whose runs give a text that normalises to the empty
  string and no block fragments returns exactly the lines of the list state machine for
  its target: open and close directives only, no item line. The stack it returns is the
  one the machine has set for its target, which is not empty, so the paragraphs after it
  see the list it opened.
\<close>

theorem empty_list_paragraph:
  assumes "extract_list_info cv p = Some t"
    and "collect_runs cv p = Inr (txt, [])"
    and "normalize_whitespace txt = []"
  shows "convert_paragraph cv p False False stack = Inr (sync_list_stack (Some t) stack)
         \<and> directives (fst (sync_list_stack (Some t) stack))
         \<and> (\<forall>l \<in> set (fst (sync_list_stack (Some t) stack)). \<not> is_item l)
         \<and> snd (sync_list_stack (Some t) stack) \<noteq> []"
proof -
  from assms have "convert_paragraph cv p False False stack = Inr (sync_list_stack (Some t) stack)"
    by (simp add: convert_paragraph_def Let_def)
  moreover have "directives (fst (sync_list_stack (Some t) stack))"
    by (rule directives_sync)
  moreover from this have "\<forall>l \<in> set (fst (sync_list_stack (Some t) stack)). \<not> is_item l"
    by (blast dest: directives_no_item)
  ultimately show ?thesis
    by (simp add: sync_some_nonempty)
qed

theorem empty_list_paragraph_witness:
  "extract_list_info cv0 (list_par ''1'' ''0'' []) = Some \<lparr>level = 0, env = ''itemize'', num_id = ''1''\<rparr>
   \<and> collect_runs cv0 (list_par ''1'' ''0'' []) = Inr ([], [])
   \<and> normalize_whitespace [] = []
   \<and> convert_paragraph cv0 (list_par ''1'' ''0'' []) False False [] =
       Inr ([bs # ''begin{itemize}''], [\<lparr>level = 0, env = ''itemize'', num_id = ''1''\<rparr>])"
proof -
  have n: "normalize_whitespace [] = []"
    by (simp add: string_eval)
  from empty_list_paragraph [OF list_par_info empty_list_par_runs n, of "[]"] sync_example_open n
  show ?thesis
    by (simp add: list_par_info empty_list_par_runs)
qed

text \<open>
  C2. A body with a list paragraph followed by a block that is neither a paragraph, a
  table nor a section break: the block is passed over with the list still open, so the
  stack has depth 1 after it, and a list paragraph behind it continues the same list.
  (On every path the levels of the stack count up from 0 without a gap, and the stack is
  empty after a paragraph outside a list, after a table, after a section break and at the
  end of the body: \<open>levels_ok_convert_blocks\<close>, \<open>drained_convert_block\<close>,
  \<open>drained_convert_body\<close>.)
\<close>

theorem unsupported_block_keeps_list_open:
  "convert_block cv0 (Element (W_NS, ''sdt'') [] None []) [\<lparr>level = 0, env = ''itemize'', num_id = ''1''\<rparr>]
     = Inr ([], [\<lparr>level = 0, env = ''itemize'', num_id = ''1''\<rparr>])
   \<and> convert_blocks cv0 [list_par ''1'' ''0'' [text_run ''a''], Element (W_NS, ''sdt'') [] None []] []
     = Inr ([bs # ''begin{itemize}'', bs # ''item a''], [\<lparr>level = 0, env = ''itemize'', num_id = ''1''\<rparr>])
   \<and> convert_blocks cv0 [list_par ''1'' ''0'' [text_run ''a''], Element (W_NS, ''sdt'') [] None [],
        list_par ''1'' ''0'' [text_run ''b'']] []
     = Inr ([bs # ''begin{itemize}'', bs # ''item a'', bs # ''item b''],
            [\<lparr>level = 0, env = ''itemize'', num_id = ''1''\<rparr>])"
  by (simp add: conv_eval xml_eval string_eval stack_eval)

section \<open>Claims about runs and hyperlinks\<close>

lemma fold_wrap_Nil: "fold wrap [] e = e"
  by simp

lemma wrappers_cases:
  "wrappers rpr =
     (if find_child (W_NS, ''b'') rpr \<noteq> None then [''textbf''] else [])
     @ (if find_child (W_NS, ''i'') rpr \<noteq> None then [''emph''] else [])
     @ (if (\<exists>u. find_child (W_NS, ''u'') rpr = Some u
                \<and> py_lower (attrib_get_default u (W_NS, ''val'') '''') \<noteq> ''none'')
        then [''underline''] else [])"
  by (simp add: wrappers_def split: option.splits)

text \<open>
  C1, as the code has it. The superscript or subscript command is put around the escaped
  text first, so it is innermost; then come bold, emphasis and underline, in this order,
  so underline is outermost. Each is applied at most once. Underline is applied when the
  element \<open>w:u\<close> is there and its value, taken as empty when absent and put in lower case,
  is not \<open>none\<close>. Without run properties the escaped text is returned as it is.
\<close>

theorem format_run_text_nesting:
  "(find_child (W_NS, ''rPr'') run = None \<longrightarrow>
      format_run_text text_node run = escape_latex (case text_of text_node of None \<Rightarrow> [] | Some s \<Rightarrow> s))
   \<and> (find_child (W_NS, ''rPr'') run = Some rpr \<longrightarrow>
      format_run_text text_node run =
        (let escaped = escape_latex (case text_of text_node of None \<Rightarrow> [] | Some s \<Rightarrow> s);
             e0 = vert_align rpr escaped;
             e1 = (if find_child (W_NS, ''b'') rpr \<noteq> None then wrap ''textbf'' e0 else e0);
             e2 = (if find_child (W_NS, ''i'') rpr \<noteq> None then wrap ''emph'' e1 else e1)
         in if (\<exists>u. find_child (W_NS, ''u'') rpr = Some u
                    \<and> py_lower (attrib_get_default u (W_NS, ''val'') '''') \<noteq> ''none'')
            then wrap ''underline'' e2 else e2))
   \<and> (find_child (W_NS, ''vertAlign'') rpr = None \<longrightarrow> vert_align rpr e = e)
   \<and> (find_child (W_NS, ''vertAlign'') rpr = Some va \<longrightarrow>
        vert_align rpr e =
          (if attrib_get va (W_NS, ''val'') = Some ''superscript'' then wrap ''textsuperscript'' e
           else if attrib_get va (W_NS, ''val'') = Some ''subscript'' then wrap ''textsubscript'' e
           else e))"
  by (auto simp: format_run_text_def wrappers_cases vert_align_def Let_def)

lemmas run_eval = styled_run_def format_run_text_def wrappers_def vert_align_def wrap_def
  escape_latex_def replacement_def replacements_def

theorem format_run_text_nesting_witness:
  "find_child (W_NS, ''rPr'')
      (styled_run [Element (W_NS, ''b'') [] None [],
                   Element (W_NS, ''u'') [((W_NS, ''val''), ''single'')] None [],
                   Element (W_NS, ''vertAlign'') [((W_NS, ''val''), ''subscript'')] None []] ''x_1'')
     = Some (Element (W_NS, ''rPr'') [] None
               [Element (W_NS, ''b'') [] None [],
                Element (W_NS, ''u'') [((W_NS, ''val''), ''single'')] None [],
                Element (W_NS, ''vertAlign'') [((W_NS, ''val''), ''subscript'')] None []])
   \<and> format_run_text (Element (W_NS, ''t'') [] (Some ''x_1'') [])
      (styled_run [Element (W_NS, ''b'') [] None [],
                   Element (W_NS, ''u'') [((W_NS, ''val''), ''single'')] None [],
                   Element (W_NS, ''vertAlign'') [((W_NS, ''val''), ''subscript'')] None []] ''x_1'')
     = bs # ''underline{'' @ [bs] @ ''textbf{'' @ [bs] @ ''textsubscript{x'' @ [bs] @ ''_1}}}''"
proof -
  let ?rpr = "Element (W_NS, ''rPr'') [] None
               [Element (W_NS, ''b'') [] None [],
                Element (W_NS, ''u'') [((W_NS, ''val''), ''single'')] None [],
                Element (W_NS, ''vertAlign'') [((W_NS, ''val''), ''subscript'')] None []]"
  let ?run = "styled_run [Element (W_NS, ''b'') [] None [],
                   Element (W_NS, ''u'') [((W_NS, ''val''), ''single'')] None [],
                   Element (W_NS, ''vertAlign'') [((W_NS, ''val''), ''subscript'')] None []] ''x_1''"
  have f: "find_child (W_NS, ''rPr'') ?run = Some ?rpr"
    by (simp add: styled_run_def xml_eval)
  have v: "find_child (W_NS, ''vertAlign'') ?rpr
             = Some (Element (W_NS, ''vertAlign'') [((W_NS, ''val''), ''subscript'')] None [])"
    by (simp add: xml_eval)
  have u: "find_child (W_NS, ''u'') ?rpr = Some (Element (W_NS, ''u'') [((W_NS, ''val''), ''single'')] None [])"
    by (simp add: xml_eval)
  have b: "find_child (W_NS, ''b'') ?rpr \<noteq> None" "find_child (W_NS, ''i'') ?rpr = None"
    by (simp_all add: xml_eval)
  have l: "py_lower (attrib_get_default (Element (W_NS, ''u'') [((W_NS, ''val''), ''single'')] None [])
             (W_NS, ''val'') '''') \<noteq> ''none''"
    by (simp add: xml_eval string_eval)
  have e: "escape_latex ''x_1'' = ''x'' @ [bs] @ ''_1''"
    by (simp add: escape_latex_def replacement_def replacements_def)
  from format_run_text_nesting
         [where run = ?run and text_node = "Element (W_NS, ''t'') [] (Some ''x_1'') []" and rpr = ?rpr
            and e = "escape_latex ''x_1''"
            and va = "Element (W_NS, ''vertAlign'') [((W_NS, ''val''), ''subscript'')] None []"]
       f v u b l e
  show ?thesis
    by (simp add: Let_def wrap_def attrib_get_def)
qed

text \<open>
  C1 as stated fails: for a bold superscript run the superscript command is inside the
  bold command, not outside.
\<close>

theorem format_run_text_superscript_innermost:
  "format_run_text (Element (W_NS, ''t'') [] (Some ''x'') [])
      (styled_run [Element (W_NS, ''b'') [] None [],
                   Element (W_NS, ''vertAlign'') [((W_NS, ''val''), ''superscript'')] None []] ''x'')
     = wrap ''textbf'' (wrap ''textsuperscript'' ''x'')
   \<and> wrap ''textbf'' (wrap ''textsuperscript'' ''x'') \<noteq> wrap ''textsuperscript'' (wrap ''textbf'' ''x'')"
  by (simp add: run_eval xml_eval string_eval)

text \<open>
  C10. The text of a hyperlink is the concatenation of the texts of its runs. It is put
  into a hyperlink reference exactly when the relationship id is there, is not empty and is
  a key of the relationship map, and the text is not empty; with a relationship that
  resolves and an empty text the empty text is returned, and in every other case the
  plain text.
\<close>

theorem convert_hyperlink_wrapper:
  assumes "gather (run_part cv) (findall (W_NS, ''r'') hyperlink) = Inr (parts, blocks)"
  shows "(attrib_get hyperlink (R_NS, ''id'') = Some rid \<and> rid \<noteq> []
            \<and> relationships cv rid = Some (rel_type, target) \<longrightarrow>
          convert_hyperlink cv hyperlink =
            Inr (if concat parts \<noteq> []
                 then bs # ''href{'' @ escape_latex target @ ''}{'' @ concat parts @ ''}''
                 else [], blocks))
         \<and> (attrib_get hyperlink (R_NS, ''id'') = None
              \<or> attrib_get hyperlink (R_NS, ''id'') = Some []
              \<or> (\<exists>r. attrib_get hyperlink (R_NS, ''id'') = Some r \<and> relationships cv r = None) \<longrightarrow>
            convert_hyperlink cv hyperlink = Inr (concat parts, blocks))"
  using assms by (auto simp: convert_hyperlink_def Let_def)

lemmas link_eval = cv_link_def link_of_def run_part_def convert_run_def convert_run_child_def
  text_run_def format_run_text_def escape_latex_def replacement_def replacements_def

theorem convert_hyperlink_wrapper_witness:
  "gather (run_part cv_link) (findall (W_NS, ''r'') (link_of [((R_NS, ''id''), ''rId5'')] [text_run '''']))
     = Inr ([''''], [])
   \<and> attrib_get (link_of [((R_NS, ''id''), ''rId5'')] [text_run '''']) (R_NS, ''id'') = Some ''rId5''
   \<and> relationships cv_link ''rId5'' = Some (''http://x/hyperlink'', ''http://a.org/b_c'')
   \<and> convert_hyperlink cv_link (link_of [((R_NS, ''id''), ''rId5'')] [text_run '''']) = Inr ('''', [])
   \<and> gather (run_part cv_link) (findall (W_NS, ''r'') (link_of [((R_NS, ''id''), ''rId9'')] [text_run ''a'']))
     = Inr ([''a''], [])
   \<and> relationships cv_link ''rId9'' = None
   \<and> convert_hyperlink cv_link (link_of [((R_NS, ''id''), ''rId9'')] [text_run ''a'']) = Inr (''a'', [])"
proof -
  have g1: "gather (run_part cv_link) (findall (W_NS, ''r'') (link_of [((R_NS, ''id''), ''rId5'')] [text_run '''']))
     = Inr ([''''], [])"
    by (simp add: link_eval xml_eval)
  have a1: "attrib_get (link_of [((R_NS, ''id''), ''rId5'')] [text_run '''']) (R_NS, ''id'') = Some ''rId5''"
    by (simp add: link_of_def xml_eval)
  have r1: "relationships cv_link ''rId5'' = Some (''http://x/hyperlink'', ''http://a.org/b_c'')"
    by (simp add: cv_link_def)
  have g2: "gather (run_part cv_link) (findall (W_NS, ''r'') (link_of [((R_NS, ''id''), ''rId9'')] [text_run ''a'']))
     = Inr ([''a''], [])"
    by (simp add: link_eval xml_eval)
  have a2: "attrib_get (link_of [((R_NS, ''id''), ''rId9'')] [text_run ''a'']) (R_NS, ''id'') = Some ''rId9''"
    by (simp add: link_of_def xml_eval)
  have r2: "relationships cv_link ''rId9'' = None"
    by (simp add: cv_link_def)
  from convert_hyperlink_wrapper [OF g1, of "''rId5''" "''http://x/hyperlink''" "''http://a.org/b_c''"] a1 r1
  have c1: "convert_hyperlink cv_link (link_of [((R_NS, ''id''), ''rId5'')] [text_run '''']) = Inr ('''', [])"
    by simp
  from convert_hyperlink_wrapper [OF g2, of "''rId9''" "''t''" "''u''"] a2 r2
  have c2: "convert_hyperlink cv_link (link_of [((R_NS, ''id''), ''rId9'')] [text_run ''a'']) = Inr (''a'', [])"
    by simp
  from g1 a1 r1 c1 g2 r2 c2 show ?thesis
    by simp
qed

lemma convert_hyperlink_example:
  "convert_hyperlink cv_link (link_of [((R_NS, ''id''), ''rId5'')] [text_run ''a''])
     = Inr (bs # ''href{http://a.org/b'' @ [bs] @ ''_c}{a}'', [])"
  by (simp add: link_eval convert_hyperlink_def xml_eval)

section \<open>Claims about defaults\<close>

lemma py_int_Nil: "py_int [] = None"
  by (simp add: py_int_def int_strip_def)

lemma py_int_too_long: "4300 < length (filter is_digit s) \<Longrightarrow> py_int s = None"
  by (simp add: py_int_def int_max_str_digits_def)

lemma py_int_separator: "py_int (CHR 0x1F # ''1'') = None" "py_int (CHR 0x85 # ''1'') = Some 1"
  by (simp_all add: string_eval)

lemma py_int_default_0: "py_int ''0'' = Some 0"
  by (simp add: string_eval)

lemma py_int_default_1: "py_int ''1'' = Some 1"
  by (simp add: string_eval)

lemma extract_list_info_env:
  assumes "extract_list_info cv p = Some st"
  shows "env st = (if list_format cv (num_id st) (level st) = ''bullet'' then ''itemize'' else ''enumerate'')"
  using assms by (auto simp: extract_list_info_def Let_def split: option.splits if_splits)

lemma extract_list_info_level:
  assumes "extract_list_info cv p = Some st"
  shows "\<exists>ppr num_pr. find_child (W_NS, ''pPr'') p = Some ppr
           \<and> find_child (W_NS, ''numPr'') ppr = Some num_pr \<and> level st = list_level num_pr"
  using assms by (auto simp: extract_list_info_def Let_def split: option.splits if_splits)

text \<open>
  C7. A numbering id that is no key of the numbering map, or a level with no entry under
  it, gives the format \<open>bullet\<close> and with it the environment \<open>itemize\<close>. The level is 0
  when \<open>w:ilvl\<close> is missing, when it has no value, and when \<open>int\<close> rejects its value. The
  span of a cell is 1 when the cell properties, the span element or its value are
  missing and when \<open>int\<close> rejects the value. A value with more than 4300 digits is one
  that \<open>int\<close> rejects. \<open>_extract_list_info\<close> and the span loop have no failing result
  at all.
\<close>

theorem defaults_for_missing_values:
  "(num_formats cv nid = None \<longrightarrow> list_format cv nid lvl = ''bullet'')
   \<and> (num_formats cv nid = Some levels \<and> levels lvl = None \<longrightarrow> list_format cv nid lvl = ''bullet'')
   \<and> (extract_list_info cv p = Some st
        \<and> (num_formats cv (num_id st) = None
            \<or> (\<exists>ls. num_formats cv (num_id st) = Some ls \<and> ls (level st) = None)) \<longrightarrow>
        env st = ''itemize'' \<and> env st \<noteq> ''enumerate'')
   \<and> (find_child (W_NS, ''ilvl'') num_pr = None \<longrightarrow> list_level num_pr = 0)
   \<and> (find_child (W_NS, ''ilvl'') num_pr = Some ilvl_elem \<and> attrib_get ilvl_elem (W_NS, ''val'') = None \<longrightarrow>
        list_level num_pr = 0)
   \<and> (find_child (W_NS, ''ilvl'') num_pr = Some ilvl_elem \<and> attrib_get ilvl_elem (W_NS, ''val'') = Some v
        \<and> py_int v = None \<longrightarrow> list_level num_pr = 0)
   \<and> (find_child (W_NS, ''tcPr'') tc = None \<longrightarrow> cell_span tc = 1)
   \<and> (find_child (W_NS, ''tcPr'') tc = Some cell_pr \<and> find_child (W_NS, ''gridSpan'') cell_pr = None \<longrightarrow>
        cell_span tc = 1)
   \<and> (find_child (W_NS, ''tcPr'') tc = Some cell_pr \<and> find_child (W_NS, ''gridSpan'') cell_pr = Some grid_span
        \<and> attrib_get grid_span (W_NS, ''val'') = None \<longrightarrow> cell_span tc = 1)
   \<and> (find_child (W_NS, ''tcPr'') tc = Some cell_pr \<and> find_child (W_NS, ''gridSpan'') cell_pr = Some grid_span
        \<and> attrib_get grid_span (W_NS, ''val'') = Some v \<and> py_int v = None \<longrightarrow> cell_span tc = 1)
   \<and> (find_child (W_NS, ''ilvl'') num_pr = Some ilvl_elem \<and> attrib_get ilvl_elem (W_NS, ''val'') = Some v
        \<and> 4300 < length (filter is_digit v) \<longrightarrow> list_level num_pr = 0)
   \<and> (find_child (W_NS, ''tcPr'') tc = Some cell_pr \<and> find_child (W_NS, ''gridSpan'') cell_pr = Some grid_span
        \<and> attrib_get grid_span (W_NS, ''val'') = Some v \<and> 4300 < length (filter is_digit v) \<longrightarrow>
        cell_span tc = 1)"
proof -
  have fmt: "list_format cv nid lvl = ''bullet''" if "num_formats cv nid = None"
    using that by (simp add: list_format_def)
  have fmt': "list_format cv nid lvl = ''bullet''" if "num_formats cv nid = Some levels" "levels lvl = None"
    using that by (simp add: list_format_def)
  have env: "env st = ''itemize'' \<and> env st \<noteq> ''enumerate''"
    if "extract_list_info cv p = Some st"
      "num_formats cv (num_id st) = None \<or> (\<exists>ls. num_formats cv (num_id st) = Some ls \<and> ls (level st) = None)"
  proof -
    from that(2) have "list_format cv (num_id st) (level st) = ''bullet''"
      by (auto simp: list_format_def)
    with extract_list_info_env [OF that(1)] show ?thesis
      by simp
  qed
  have lvl: "list_level num_pr = 0"
    if "find_child (W_NS, ''ilvl'') num_pr = None
        \<or> (find_child (W_NS, ''ilvl'') num_pr = Some ilvl_elem \<and> attrib_get ilvl_elem (W_NS, ''val'') = None)
        \<or> (find_child (W_NS, ''ilvl'') num_pr = Some ilvl_elem \<and> attrib_get ilvl_elem (W_NS, ''val'') = Some v
            \<and> py_int v = None)"
    using that by (auto simp: list_level_def attrib_get_default_def py_int_default_0)
  have span: "cell_span tc = 1"
    if "find_child (W_NS, ''tcPr'') tc = None
        \<or> (find_child (W_NS, ''tcPr'') tc = Some cell_pr \<and> find_child (W_NS, ''gridSpan'') cell_pr = None)
        \<or> (find_child (W_NS, ''tcPr'') tc = Some cell_pr \<and> find_child (W_NS, ''gridSpan'') cell_pr = Some grid_span
            \<and> attrib_get grid_span (W_NS, ''val'') = None)
        \<or> (find_child (W_NS, ''tcPr'') tc = Some cell_pr \<and> find_child (W_NS, ''gridSpan'') cell_pr = Some grid_span
            \<and> attrib_get grid_span (W_NS, ''val'') = Some v \<and> py_int v = None)"
    using that by (auto simp: cell_span_def attrib_get_default_def py_int_default_1)
  from fmt fmt' env lvl span py_int_too_long [of v] show ?thesis
    by blast
qed

lemma py_int_rejects: "py_int ''two'' = None" "py_int ''1.5'' = None" "py_int '''' = None"
  by (simp_all add: string_eval)

lemma list_par_bad_level:
  "extract_list_info cv0 (list_par ''7'' ''x'' []) = Some \<lparr>level = 0, env = ''itemize'', num_id = ''7''\<rparr>"
  by (simp add: conv_eval xml_eval string_eval)

theorem defaults_for_missing_values_witness:
  "num_formats cv0 ''7'' = None
   \<and> extract_list_info cv0 (list_par ''7'' ''x'' []) = Some \<lparr>level = 0, env = ''itemize'', num_id = ''7''\<rparr>
   \<and> env \<lparr>level = 0, env = ''itemize'', num_id = ''7''\<rparr> = ''itemize''
   \<and> find_child (W_NS, ''tcPr'') (span_cell ''two'')
        = Some (Element (W_NS, ''tcPr'') [] None [Element (W_NS, ''gridSpan'') [((W_NS, ''val''), ''two'')] None []])
   \<and> py_int ''two'' = None
   \<and> cell_span (span_cell ''two'') = 1
   \<and> list_level (Element (W_NS, ''numPr'') [] None [Element (W_NS, ''ilvl'') [((W_NS, ''val''), ''1.5'')] None []]) = 0"
proof -
  let ?gs = "Element (W_NS, ''gridSpan'') [((W_NS, ''val''), ''two'')] None []"
  let ?pr = "Element (W_NS, ''tcPr'') [] None [?gs]"
  let ?il = "Element (W_NS, ''ilvl'') [((W_NS, ''val''), ''1.5'')] None []"
  let ?np = "Element (W_NS, ''numPr'') [] None [?il]"
  let ?st = "\<lparr>level = 0, env = ''itemize'', num_id = ''7''\<rparr>"
  have n: "num_formats cv0 ''7'' = None"
    by (simp add: cv0_def)
  have t: "find_child (W_NS, ''tcPr'') (span_cell ''two'') = Some ?pr"
    "find_child (W_NS, ''gridSpan'') ?pr = Some ?gs" "attrib_get ?gs (W_NS, ''val'') = Some ''two''"
    by (simp_all add: span_cell_def xml_eval)
  have i: "find_child (W_NS, ''ilvl'') ?np = Some ?il" "attrib_get ?il (W_NS, ''val'') = Some ''1.5''"
    by (simp_all add: xml_eval)
  from defaults_for_missing_values
         [where cv = cv0 and p = "list_par ''7'' ''x'' []" and st = ?st and tc = "span_cell ''two''"
            and cell_pr = ?pr and grid_span = ?gs and v = "''two''"]
       n t list_par_bad_level py_int_rejects(1)
  have a: "env ?st = ''itemize''" "cell_span (span_cell ''two'') = 1"
    by simp_all
  from defaults_for_missing_values [where num_pr = ?np and ilvl_elem = ?il and v = "''1.5''"]
       i py_int_rejects(2)
  have b: "list_level ?np = 0"
    by simp
  from n t a b list_par_bad_level py_int_rejects(1) show ?thesis
    by simp
qed

section \<open>The width of a drawing\<close>

lemma one_inch: "true_div 914400 EMU_PER_INCH = Inr (4503599627370496, - 52)"
  by (simp add: float_eval num_eval)

lemma one_inch_text: "format_2f (4503599627370496, - 52) = ''1.00''"
  by (simp add: float_eval num_eval)

lemma width_option_one_inch:
  assumes "find_child (WP_NS, ''extent'') container = Some extent"
    and "attrib_get extent (No_NS, ''cx'') = Some cx"
    and "py_int cx = Some 914400"
  shows "width_option container = Inr ''width=1.00in''"
proof -
  from assms(3) have "cx \<noteq> []"
    by (auto simp: py_int_Nil)
  with assms show ?thesis
    by (simp add: width_option_def one_inch one_inch_text)
qed

lemma width_option_no_extent:
  "find_child (WP_NS, ''extent'') container = None \<Longrightarrow> width_option container = Inr default_width"
  by (simp add: width_option_def)

lemma width_option_too_long:
  assumes "find_child (WP_NS, ''extent'') container = Some extent"
    and "attrib_get extent (No_NS, ''cx'') = Some cx"
    and "4300 < length (filter is_digit cx)"
  shows "width_option container = Inr default_width"
  using assms py_int_too_long [of cx] by (simp add: width_option_def)

lemma convert_drawing_figure:
  assumes "convert_drawing cv drawing = Inr (Some ls)"
    and "drawing_container drawing = Some container"
  shows "\<exists>width path caption. width_option container = Inr width \<and> ls = figure_lines width path caption"
proof -
  from assms obtain width target where
    "width_option container = Inr width"
    "ls = figure_lines width (media_tex_path cv target) (caption_of container)"
    by (auto simp: convert_drawing_def split: option.splits if_splits sum.splits)
  then show ?thesis
    by blast
qed

lemma figure_lines_third:
  "figure_lines width path caption ! 2 = bs # ''includegraphics['' @ width @ '']{'' @ escape_latex path @ ''}''"
  by (simp add: figure_lines_def)

text \<open>
  C8. Whenever a drawing yields a figure, the width option in its image line comes from
  the extent of its container: an extent whose \<open>cx\<close> reads as the integer 914400 gives
  \<open>width=1.00in\<close>, the quotient by 914400 units per inch printed with two decimals, and a
  container with no extent element gives the default of 0.7 of the line width. A \<open>cx\<close>
  that \<open>int\<close> rejects, as one with more than 4300 digits, keeps the default as well.
\<close>

theorem drawing_width:
  assumes "convert_drawing cv drawing = Inr (Some ls)"
    and "drawing_container drawing = Some container"
  shows "(find_child (WP_NS, ''extent'') container = Some extent
            \<and> attrib_get extent (No_NS, ''cx'') = Some cx \<and> py_int cx = Some 914400 \<longrightarrow>
          width_option container = Inr ''width=1.00in''
          \<and> (\<exists>path. ls ! 2 = bs # ''includegraphics[width=1.00in]{'' @ path @ ''}''))
         \<and> (find_child (WP_NS, ''extent'') container = None \<longrightarrow>
          width_option container = Inr (''width=0.7'' @ [bs] @ ''linewidth'')
          \<and> (\<exists>path. ls ! 2 = bs # ''includegraphics[width=0.7'' @ [bs] @ ''linewidth]{'' @ path @ ''}''))
         \<and> (find_child (WP_NS, ''extent'') container = Some extent
            \<and> attrib_get extent (No_NS, ''cx'') = Some cx \<and> 4300 < length (filter is_digit cx) \<longrightarrow>
          width_option container = Inr (''width=0.7'' @ [bs] @ ''linewidth''))
         \<and> true_div 914400 EMU_PER_INCH = Inr (4503599627370496, - 52)
         \<and> format_2f (4503599627370496, - 52) = ''1.00''"
proof -
  from convert_drawing_figure [OF assms] obtain width path caption
    where w: "width_option container = Inr width" and ls: "ls = figure_lines width path caption"
    by blast
  have a: "width_option container = Inr ''width=1.00in''
           \<and> (\<exists>path. ls ! 2 = bs # ''includegraphics[width=1.00in]{'' @ path @ ''}'')"
    if "find_child (WP_NS, ''extent'') container = Some extent"
      "attrib_get extent (No_NS, ''cx'') = Some cx" "py_int cx = Some 914400"
  proof -
    from width_option_one_inch [OF that] w have "width = ''width=1.00in''"
      by simp
    with ls width_option_one_inch [OF that] show ?thesis
      by (auto simp: figure_lines_third)
  qed
  have b: "width_option container = Inr (''width=0.7'' @ [bs] @ ''linewidth'')
           \<and> (\<exists>path. ls ! 2 = bs # ''includegraphics[width=0.7'' @ [bs] @ ''linewidth]{'' @ path @ ''}'')"
    if "find_child (WP_NS, ''extent'') container = None"
  proof -
    from width_option_no_extent [OF that] w have "width = ''width=0.7'' @ [bs] @ ''linewidth''"
      by (simp add: default_width_def)
    with ls width_option_no_extent [OF that] show ?thesis
      by (auto simp: figure_lines_third default_width_def)
  qed
  have c: "width_option container = Inr (''width=0.7'' @ [bs] @ ''linewidth'')"
    if "find_child (WP_NS, ''extent'') container = Some extent"
      "attrib_get extent (No_NS, ''cx'') = Some cx" "4300 < length (filter is_digit cx)"
    using width_option_too_long [OF that] by (simp add: default_width_def)
  from a b c one_inch one_inch_text show ?thesis
    by blast
qed

lemmas drawing_eval = cv_image_def picture_def drawing_of_def extent_of_def convert_drawing_def
  drawing_container_def width_option_def default_width_def caption_of_def figure_lines_def
  escape_latex_def replacement_def replacements_def

lemma drawing_example_container:
  "drawing_container (drawing_of extents) = Some (picture extents)"
  by (simp add: drawing_container_def drawing_of_def picture_def xml_eval)

lemma drawing_example_extent:
  "find_child (WP_NS, ''extent'') (picture [extent_of cx]) = Some (extent_of cx)"
  "attrib_get (extent_of cx) (No_NS, ''cx'') = Some cx"
  "find_child (WP_NS, ''extent'') (picture []) = None"
  by (simp_all add: picture_def extent_of_def xml_eval)

lemma py_int_914400: "py_int ''914400'' = Some 914400"
  by (simp add: string_eval)

lemma drawing_example_default:
  "convert_drawing cv_image (drawing_of []) =
     Inr (Some [bs # ''begin{figure}[h]'', bs # ''centering'',
                bs # ''includegraphics[width=0.7'' @ [bs] @ ''linewidth]{paper'' @ [bs] @ ''_media/image1.png}'',
                bs # ''end{figure}''])"
  by (simp add: drawing_eval xml_eval string_eval)

lemma drawing_example_inch:
  "convert_drawing cv_image (drawing_of [extent_of ''914400'']) =
     Inr (Some [bs # ''begin{figure}[h]'', bs # ''centering'',
                bs # ''includegraphics[width=1.00in]{paper'' @ [bs] @ ''_media/image1.png}'',
                bs # ''end{figure}''])"
  by (simp add: drawing_eval xml_eval py_int_914400 one_inch one_inch_text endswith_def)

theorem drawing_width_witness:
  "convert_drawing cv_image (drawing_of [extent_of ''914400'']) =
     Inr (Some [bs # ''begin{figure}[h]'', bs # ''centering'',
                bs # ''includegraphics[width=1.00in]{paper'' @ [bs] @ ''_media/image1.png}'',
                bs # ''end{figure}''])
   \<and> drawing_container (drawing_of [extent_of ''914400'']) = Some (picture [extent_of ''914400''])
   \<and> find_child (WP_NS, ''extent'') (picture [extent_of ''914400'']) = Some (extent_of ''914400'')
   \<and> attrib_get (extent_of ''914400'') (No_NS, ''cx'') = Some ''914400''
   \<and> py_int ''914400'' = Some 914400
   \<and> width_option (picture [extent_of ''914400'']) = Inr ''width=1.00in''
   \<and> drawing_container (drawing_of []) = Some (picture [])
   \<and> find_child (WP_NS, ''extent'') (picture []) = None
   \<and> width_option (picture []) = Inr (''width=0.7'' @ [bs] @ ''linewidth'')"
proof -
  from drawing_width [OF drawing_example_inch drawing_example_container,
         where extent = "extent_of ''914400''" and cx = "''914400''"]
       drawing_example_extent py_int_914400
  have a: "width_option (picture [extent_of ''914400'']) = Inr ''width=1.00in''"
    by simp
  from drawing_width [OF drawing_example_default drawing_example_container] drawing_example_extent(3)
  have b: "width_option (picture []) = Inr (''width=0.7'' @ [bs] @ ''linewidth'')"
    by simp
  from a b drawing_example_inch drawing_example_container drawing_example_extent py_int_914400
  show ?thesis
    by simp
qed

section \<open>Claims about tables\<close>

lemma span_total_max: "0 \<le> a \<Longrightarrow> max 1 (max a (span_total row)) = max (max 1 a) (sum_list (map snd row))"
  by (auto simp: span_total_def Let_def max_def)

lemma span_total_fold:
  "0 \<le> a \<Longrightarrow>
   0 \<le> fold (\<lambda>row m. max m (span_total row)) rows a
   \<and> max 1 (fold (\<lambda>row m. max m (span_total row)) rows a)
       = fold (\<lambda>row m. max m (sum_list (map snd row))) rows (max 1 a)"
proof (induction rows arbitrary: a)
  case Nil
  then show ?case by simp
next
  case (Cons row rows)
  from Cons.prems have "0 \<le> max a (span_total row)"
    by simp
  from Cons.IH [OF this] Cons.prems show ?case
    by (simp add: span_total_max)
qed

lemma fold_max_Max:
  "fold (\<lambda>row m. max m (f row)) rows (b::int) = Max (insert b (f ` set rows))"
proof (induction rows arbitrary: b)
  case Nil
  show ?case by simp
next
  case (Cons row rows)
  have "Max (insert (max b (f row)) (f ` set rows)) = Max (insert b (insert (f row) (f ` set rows)))"
    by (cases "set rows = {}") (simp_all add: max.assoc)
  with Cons [of "max b (f row)"] show ?case
    by simp
qed

lemma max_cols_of_Max:
  "max_cols_of rows = Max (insert 1 ((\<lambda>row. sum_list (map snd row)) ` set rows))"
proof -
  from span_total_fold [of 0 rows]
  have "0 \<le> fold (\<lambda>row m. max m (span_total row)) rows 0"
    and "max 1 (fold (\<lambda>row m. max m (span_total row)) rows 0)
         = fold (\<lambda>row m. max m (sum_list (map snd row))) rows 1"
    by simp_all
  moreover have "max_cols_of rows = max 1 (fold (\<lambda>row m. max m (span_total row)) rows 0)"
    using calculation(1) by (simp add: max_cols_of_def Let_def)
  ultimately show ?thesis
    by (simp add: fold_max_Max)
qed

lemma row_cells_spans:
  "row_cells cv tcs = Inr cells \<Longrightarrow>
   list_all2 (\<lambda>tc cell. convert_table_cell cv tc = Inr (fst cell) \<and> snd cell = cell_span tc) tcs cells"
proof (induction tcs arbitrary: cells)
  case Nil
  then show ?case by simp
next
  case (Cons tc tcs)
  from Cons.prems obtain cell_text rest where
    "convert_table_cell cv tc = Inr cell_text" "row_cells cv tcs = Inr rest"
    "cells = (cell_text, cell_span tc) # rest"
    by (auto simp: Let_def split: sum.splits)
  with Cons.IH [of rest] show ?case
    by simp
qed

lemma rows_data_rows:
  "rows_data cv trs = Inr rows \<Longrightarrow>
   list_all2 (\<lambda>tr row. row_cells cv (findall (W_NS, ''tc'') tr) = Inr row) trs rows"
proof (induction trs arbitrary: rows)
  case Nil
  then show ?case by simp
next
  case (Cons tr trs)
  from Cons.prems obtain row rest where
    "row_cells cv (findall (W_NS, ''tc'') tr) = Inr row" "rows_data cv trs = Inr rest" "rows = row # rest"
    by (auto split: sum.splits)
  with Cons.IH [of rest] show ?case
    by simp
qed

lemma rows_data_spans:
  assumes "rows_data cv trs = Inr rows"
  shows "map (map snd) rows = map (\<lambda>tr. map cell_span (findall (W_NS, ''tc'') tr)) trs"
proof -
  have "map snd row = map cell_span (findall (W_NS, ''tc'') tr)"
    if "row_cells cv (findall (W_NS, ''tc'') tr) = Inr row" for tr row
    using row_cells_spans [OF that] by (induction rule: list_all2_induct) simp_all
  with rows_data_rows [OF assms] show ?thesis
    by (induction rule: list_all2_induct) simp_all
qed

lemma cell_span_value:
  assumes "find_child (W_NS, ''tcPr'') tc = Some cell_pr"
    and "find_child (W_NS, ''gridSpan'') cell_pr = Some grid_span"
    and "attrib_get grid_span (W_NS, ''val'') = Some v"
    and "py_int v = Some n"
  shows "cell_span tc = n"
  using assms by (simp add: cell_span_def attrib_get_default_def)

lemma table_2x_rows:
  "rows_data cv0 (findall (W_NS, ''tr'') table_2x) = Inr [[(''x'', 2)], [(''a'', 1), ([], 1)]]"
  by (simp add: table_2x_def convert_table_cell_def cell_span_def conv_eval xml_eval string_eval)

lemma table_2x_lines:
  "table_lines [[(''x'', 2)], [(''a'', 1), ([], 1)]] =
     [bs # ''begin{longtable}{|p{'' @ [bs] @ ''dimexpr'' @ [bs] @ ''linewidth/2-2'' @ [bs] @ ''tabcolsep''
        @ [bs] @ ''relax}|p{'' @ [bs] @ ''dimexpr'' @ [bs] @ ''linewidth/2-2'' @ [bs] @ ''tabcolsep''
        @ [bs] @ ''relax}|}'',
      bs # ''hline'',
      bs # ''multicolumn{2}{|p{'' @ [bs] @ ''dimexpr'' @ [bs] @ ''linewidth/2-2'' @ [bs] @ ''tabcolsep''
        @ [bs] @ ''relax}|}{x} '' @ [bs, bs],
      bs # ''hline'',
      ''a & '' @ [bs] @ ''quad{} '' @ [bs, bs],
      bs # ''hline'',
      bs # ''end{longtable}'']"
  by (simp add: table_lines_def max_cols_of_def span_total_def row_line_def cell_part_def
      column_width_def py_str_int_def num_eval numeral_2_eq_2)

lemmas table_eval = table_lines_def max_cols_of_def span_total_def row_line_def cell_part_def
  column_width_def py_str_int_def rows_231_def

lemma table_example:
  "max_cols_of rows_231 = 3
   \<and> row_line 3 [(''a'', 1), (''b'', 1)] = ''a & b '' @ [bs, bs]
   \<and> row_line 3 [(''c'', 1), ('''', 1), (''e'', 1)] = ''c & '' @ [bs] @ ''quad{} & e '' @ [bs, bs]"
  by (simp add: table_eval num_eval)

text \<open>
  C6, as the code has it. The span of a cell is the value of its \<open>w:gridSpan\<close>, and the
  rows the table is printed from hold the text and the span of every cell. The column
  count is the largest span sum of a row, and at least 1. A row is printed as its own cells joined by the column separator, one part for each
  cell and none added. A cell of span 1 prints its content, or the placeholder when the
  content is empty. A cell of span above 1 prints a multi-column directive over that many
  columns whose column type is the width of one column, the same for every span. With
  rows of span sums 2, 3 and 1 the count is 3 and the first row prints its two cells only.
\<close>

theorem table_columns:
  "max_cols_of rows = Max (insert 1 ((\<lambda>row. sum_list (map snd row)) ` set rows))
   \<and> 1 \<le> max_cols_of rows
   \<and> table_lines rows =
       [bs # ''begin{longtable}{|''
          @ join ''|'' (replicate (nat (max_cols_of rows)) (column_width (max_cols_of rows))) @ ''|}'',
        bs # ''hline'']
       @ concat (map (\<lambda>row. [row_line (max_cols_of rows) row, bs # ''hline'']) rows)
       @ [bs # ''end{longtable}'']
   \<and> (rows_data cv (findall (W_NS, ''tr'') table) = Inr rows \<longrightarrow>
        convert_table cv table = Inr (table_lines rows))
   \<and> (rows_data cv (findall (W_NS, ''tr'') table) = Inr rows \<longrightarrow>
        map (map snd) rows
          = map (\<lambda>tr. map cell_span (findall (W_NS, ''tc'') tr)) (findall (W_NS, ''tr'') table))
   \<and> (find_child (W_NS, ''tcPr'') tc = Some cell_pr \<and> find_child (W_NS, ''gridSpan'') cell_pr = Some grid_span
        \<and> attrib_get grid_span (W_NS, ''val'') = Some v \<and> py_int v = Some k \<longrightarrow> cell_span tc = k)
   \<and> row_line n row = join '' & '' (map (cell_part n) row) @ '' '' @ [bs, bs]
   \<and> length (map (cell_part n) row) = length row
   \<and> (snd cell = 1 \<longrightarrow> cell_part n cell = (if fst cell \<noteq> [] then fst cell else bs # ''quad{}''))
   \<and> (1 < snd cell \<longrightarrow>
        cell_part n cell =
          bs # ''multicolumn{'' @ py_str_int (snd cell) @ ''}{|'' @ column_width n @ ''|}{''
          @ (if fst cell \<noteq> [] then fst cell else bs # ''quad{}'') @ ''}'')
   \<and> max_cols_of rows_231 = 3
   \<and> map (\<lambda>row. sum_list (map snd row)) rows_231 = [2, 3, 1]
   \<and> row_line 3 (rows_231 ! 0) = ''a & b '' @ [bs, bs]"
proof -
  have "1 \<le> max_cols_of rows"
    by (simp add: max_cols_of_Max)
  moreover have "map (\<lambda>row. sum_list (map snd row)) rows_231 = [2, 3, 1]"
    by (simp add: rows_231_def)
  moreover have "row_line 3 (rows_231 ! 0) = ''a & b '' @ [bs, bs]"
    using table_example by (simp add: rows_231_def)
  moreover have "map (map snd) rows
      = map (\<lambda>tr. map cell_span (findall (W_NS, ''tc'') tr)) (findall (W_NS, ''tr'') table)"
    if "rows_data cv (findall (W_NS, ''tr'') table) = Inr rows"
    using that by (rule rows_data_spans)
  moreover have "cell_span tc = k"
    if "find_child (W_NS, ''tcPr'') tc = Some cell_pr \<and> find_child (W_NS, ''gridSpan'') cell_pr = Some grid_span
        \<and> attrib_get grid_span (W_NS, ''val'') = Some v \<and> py_int v = Some k"
    using that cell_span_value [of tc cell_pr grid_span v k] by blast
  ultimately show ?thesis
    using max_cols_of_Max [of rows] table_example
    by (simp add: table_lines_def row_line_def cell_part_def convert_table_def Let_def)
qed

theorem table_columns_witness:
  "snd (''x'', 2 :: int) > 1
   \<and> cell_part 3 (''x'', 2) =
       bs # ''multicolumn{2}{|p{'' @ [bs] @ ''dimexpr'' @ [bs] @ ''linewidth/3-2'' @ [bs] @ ''tabcolsep''
       @ [bs] @ ''relax}|}{x}''
   \<and> snd ('''', 1 :: int) = 1
   \<and> cell_part 3 ('''', 1) = bs # ''quad{}''
   \<and> max_cols_of [[(''x'', 2)], []] = Max (insert 1 ((\<lambda>row. sum_list (map snd row)) ` set [[(''x'', 2)], []]))
   \<and> max_cols_of [[(''x'', 2)], []] = 2
   \<and> rows_data cv0 (findall (W_NS, ''tr'') table_2x) = Inr [[(''x'', 2)], [(''a'', 1), ([], 1)]]
   \<and> convert_table cv0 table_2x = Inr (table_lines [[(''x'', 2)], [(''a'', 1), ([], 1)]])
   \<and> max_cols_of [[(''x'', 2)], [(''a'', 1), ([], 1)]] = 2"
proof -
  have w: "column_width 3 = ''p{'' @ [bs] @ ''dimexpr'' @ [bs] @ ''linewidth/3-2'' @ [bs] @ ''tabcolsep''
       @ [bs] @ ''relax}''" "py_str_int 2 = ''2''"
    by (simp_all add: column_width_def py_str_int_def num_eval)
  from table_columns [where cell = "(''x'', 2)" and n = 3 and rows = "[[(''x'', 2)], []]"] w
  have a: "cell_part 3 (''x'', 2) =
       bs # ''multicolumn{2}{|p{'' @ [bs] @ ''dimexpr'' @ [bs] @ ''linewidth/3-2'' @ [bs] @ ''tabcolsep''
       @ [bs] @ ''relax}|}{x}''"
    and m: "max_cols_of [[(''x'', 2)], []] = Max (insert 1 ((\<lambda>row. sum_list (map snd row)) ` set [[(''x'', 2)], []]))"
    by simp_all
  from table_columns [where cell = "('''', 1)" and n = 3]
  have b: "cell_part 3 ('''', 1) = bs # ''quad{}''"
    by simp
  from m have m2: "max_cols_of [[(''x'', 2)], []] = 2"
    by simp
  from table_columns [where cv = cv0 and table = table_2x and rows = "[[(''x'', 2)], [(''a'', 1), ([], 1)]]"]
       table_2x_rows
  have t: "convert_table cv0 table_2x = Inr (table_lines [[(''x'', 2)], [(''a'', 1), ([], 1)]])"
    and n: "max_cols_of [[(''x'', 2)], [(''a'', 1), ([], 1)]] = 2"
    by simp_all
  from a b m m2 t n table_2x_rows show ?thesis
    by simp
qed

text \<open>
  C6 as stated fails in one point: the multi-column directive is not sized to the span
  times the width of a column. For spans 2 and 3 in a table of 3 columns the column type
  of the directive is the same, the width of one column as in the column specification.
\<close>

theorem multicolumn_width_is_one_column:
  "column_width 3 = ''p{'' @ [bs] @ ''dimexpr'' @ [bs] @ ''linewidth/3-2'' @ [bs] @ ''tabcolsep'' @ [bs] @ ''relax}''
   \<and> cell_part 3 (''a'', 2) =
       bs # ''multicolumn{2}{|p{'' @ [bs] @ ''dimexpr'' @ [bs] @ ''linewidth/3-2'' @ [bs] @ ''tabcolsep''
       @ [bs] @ ''relax}|}{a}''
   \<and> cell_part 3 (''a'', 3) =
       bs # ''multicolumn{3}{|p{'' @ [bs] @ ''dimexpr'' @ [bs] @ ''linewidth/3-2'' @ [bs] @ ''tabcolsep''
       @ [bs] @ ''relax}|}{a}''"
  by (simp add: table_eval num_eval)

section \<open>Claims about whitespace\<close>



lemma re_sub_ws_space:
  "is_space c \<Longrightarrow> re_sub_ws (c # cs) = CHR '' '' # re_sub_ws (dropWhile is_space cs)"
  by simp













lemma ws_words_all_space: "\<forall>c \<in> set s. is_space c \<Longrightarrow> ws_words s = []"
  by (subst ws_words.simps) (simp add: dropWhile_eq_Nil_conv [THEN iffD2])










lemma convert_paragraph_non_list:
  assumes "collect_runs cv p = Inr (t, blocks)" "extract_list_info cv p = None"
  shows "convert_paragraph cv p False False stack =
           (let lines = fst (close_all_lists stack)
                        @ plain_lines (paragraph_style p) (normalize_whitespace t) @ blocks
            in Inr (if lines \<noteq> [] \<and> last lines \<noteq> [] then lines @ [[]] else lines, []))"
  using assms
  by (auto simp: convert_paragraph_def Let_def sync_list_stack_def close_all_lists_eq)

lemma heading_lines:
  "t \<noteq> [] \<Longrightarrow> plain_lines (Some ''Heading1'') t = [bs # ''section{'' @ t @ ''}'']"
  "t \<noteq> [] \<Longrightarrow> plain_lines (Some ''Heading2'') t = [bs # ''subsection{'' @ t @ ''}'']"
  "t \<noteq> [] \<Longrightarrow> plain_lines (Some ''Heading3'') t = [bs # ''subsubsection{'' @ t @ ''}'']"
  "t \<noteq> [] \<Longrightarrow> plain_lines (Some ''Title'') t = [bs # ''title{'' @ t @ ''}'', bs # ''maketitle'']"
  by (simp_all add: plain_lines_def)










end
